theory Spec2Isabelle
  imports Complex_Main
begin

section \<open>Shallow embedding of the maze-chase simulation (pacman.py)\<close>

text \<open>
  The embedding covers the simulation core of \<^verbatim>\<open>pacman.py\<close>: the classes \<^verbatim>\<open>PacMan\<close> and
  \<^verbatim>\<open>Ghost\<close> and the methods \<^verbatim>\<open>setup_level\<close>, \<^verbatim>\<open>find_spawn\<close> and \<^verbatim>\<open>update_game\<close> of \<^verbatim>\<open>Game\<close>.
  Conventions:
  \<^item> Python floats are modelled as exact reals, Python ints as \<open>int\<close>; the coordinates
    and speeds of the example sessions are dyadic, so that float arithmetic on them is
    exact;
  \<^item> an \<^verbatim>\<open>IndexError\<close> of a list subscript is the value \<open>Inl IndexError\<close>, every function
    that subscripts the maze returns \<open>error + _\<close>;
  \<^item> attributes of the two actor classes keep their names with a prefix (\<open>p\<close> for
    \<^verbatim>\<open>PacMan\<close>, \<open>g\<close> for \<^verbatim>\<open>Ghost\<close>) where the two classes share a name;
  \<^item> \<^verbatim>\<open>random.shuffle\<close> is an explicit argument: the list of directions in the order the
    shuffle left them;
  \<^item> sprites, particles, animation counters, sounds and the menu state (\<^verbatim>\<open>self.state\<close>,
    \<^verbatim>\<open>self.power_pulse\<close>) are left out: no simulation field depends on them.
\<close>

subsection \<open>Constants and enumerations\<close>

definition SCREEN_WIDTH :: real where
  "SCREEN_WIDTH = 600"

definition CELL_SIZE :: int where
  "CELL_SIZE = 30"

definition PACMAN_SPEED :: real where
  "PACMAN_SPEED = 5 / 2"

definition GHOST_SPEED :: real where
  "GHOST_SPEED = 3 / 2"

definition FRIGHTENED_SPEED :: real where
  "FRIGHTENED_SPEED = 1"

datatype Direction = UP | DOWN | LEFT | RIGHT | NONE

text \<open>The \<^verbatim>\<open>.value\<close> of a member of the enumeration \<^verbatim>\<open>Direction\<close>.\<close>

fun dir_value :: "Direction \<Rightarrow> real \<times> real" where
  "dir_value UP = (0, -1)"
| "dir_value DOWN = (0, 1)"
| "dir_value LEFT = (-1, 0)"
| "dir_value RIGHT = (1, 0)"
| "dir_value NONE = (0, 0)"

datatype error = IndexError

text \<open>Sequencing of fallible steps: the first exception ends the computation.\<close>

fun bind_r :: "error + 'a \<Rightarrow> ('a \<Rightarrow> error + 'b) \<Rightarrow> error + 'b" where
  "bind_r (Inl e) f = Inl e"
| "bind_r (Inr v) f = f v"

text \<open>Python's \<^verbatim>\<open>xs[i]\<close>: a negative index counts from the end, out of range raises.\<close>

definition py_index :: "'a list \<Rightarrow> int \<Rightarrow> error + 'a" where
  "py_index xs i =
     (if 0 \<le> i \<and> i < int (length xs) then Inr (xs ! nat i)
      else if i < 0 \<and> - int (length xs) \<le> i then Inr (xs ! nat (int (length xs) + i))
      else Inl IndexError)"

type_synonym grid = "int list list"

text \<open>\<^verbatim>\<open>maze[my][mx]\<close>\<close>

definition maze_get :: "grid \<Rightarrow> int \<Rightarrow> int \<Rightarrow> error + int" where
  "maze_get m my mx = bind_r (py_index m my) (\<lambda>row. py_index row mx)"

text \<open>\<^verbatim>\<open>int(c // CELL_SIZE)\<close> for a float \<open>c\<close>\<close>

definition cell_of :: "real \<Rightarrow> int" where
  "cell_of c = \<lfloor>c / real_of_int CELL_SIZE\<rfloor>"

text \<open>
  The guard \<^verbatim>\<open>0 <= my < len(maze) and 0 <= mx < len(maze[0])\<close>. Python evaluates
  \<^verbatim>\<open>maze[0]\<close> only when the first conjunct holds, and then the maze has a row 0.
\<close>

definition in_grid :: "grid \<Rightarrow> int \<Rightarrow> int \<Rightarrow> bool" where
  "in_grid m my mx =
     (0 \<le> my \<and> my < int (length m) \<and> 0 \<le> mx \<and> mx < int (length (hd m)))"

subsection \<open>The player: class PacMan\<close>

record PacMan =
  px :: real
  py :: real
  pstart_x :: real
  pstart_y :: real
  pdirection :: Direction
  next_direction :: Direction
  pspeed :: real
  pradius :: int

text \<open>\<^verbatim>\<open>PacMan.__init__(x, y)\<close>\<close>

definition PacMan_init :: "real \<Rightarrow> real \<Rightarrow> PacMan" where
  "PacMan_init x0 y0 =
     \<lparr>px = x0, py = y0, pstart_x = x0, pstart_y = y0, pdirection = RIGHT,
      next_direction = NONE, pspeed = PACMAN_SPEED, pradius = CELL_SIZE div 2 - 5\<rparr>"

text \<open>
  One iteration of the loop over the corners in \<^verbatim>\<open>PacMan.check_collision\<close>: the verdict on
  one sampled point. A point outside the grid is skipped, which is the verdict "not
  blocked".
\<close>

definition pacman_corner_blocked :: "grid \<Rightarrow> real \<times> real \<Rightarrow> error + bool" where
  "pacman_corner_blocked m c =
     (let mx = cell_of (fst c); my = cell_of (snd c)
      in if in_grid m my mx
         then bind_r (maze_get m my mx) (\<lambda>t. Inr (t = 1))
         else Inr False)"

text \<open>The loop \<^verbatim>\<open>for cx, cy in corners\<close>: \<^verbatim>\<open>return True\<close> at the first wall.\<close>

fun pacman_corners_blocked :: "grid \<Rightarrow> (real \<times> real) list \<Rightarrow> error + bool" where
  "pacman_corners_blocked m [] = Inr False"
| "pacman_corners_blocked m (c # cs) =
     bind_r (pacman_corner_blocked m c)
       (\<lambda>b. if b then Inr True else pacman_corners_blocked m cs)"

definition pacman_corners :: "PacMan \<Rightarrow> real \<Rightarrow> real \<Rightarrow> (real \<times> real) list" where
  "pacman_corners p cx cy =
     (let margin = 4; r = real_of_int (pradius p)
      in [(cx - r + margin, cy - r + margin),
          (cx + r - margin, cy - r + margin),
          (cx - r + margin, cy + r - margin),
          (cx + r - margin, cy + r - margin)])"

text \<open>\<^verbatim>\<open>PacMan.check_collision(x, y, maze)\<close>\<close>

definition pacman_check_collision :: "PacMan \<Rightarrow> real \<Rightarrow> real \<Rightarrow> grid \<Rightarrow> error + bool" where
  "pacman_check_collision p cx cy m = pacman_corners_blocked m (pacman_corners p cx cy)"

text \<open>
  The horizontal wrap at the end of \<^verbatim>\<open>PacMan.update\<close> and of \<^verbatim>\<open>Ghost.update\<close>:
  \<^verbatim>\<open>if self.x < 0: self.x = SCREEN_WIDTH  elif self.x > SCREEN_WIDTH: self.x = 0\<close>
\<close>

definition wrap_x :: "real \<Rightarrow> real" where
  "wrap_x v = (if v < 0 then SCREEN_WIDTH else if v > SCREEN_WIDTH then 0 else v)"

text \<open>The first block of \<^verbatim>\<open>PacMan.update\<close>: turning into the queued direction.\<close>

definition pacman_turn :: "grid \<Rightarrow> PacMan \<Rightarrow> error + PacMan" where
  "pacman_turn m p =
     (if next_direction p \<noteq> NONE
      then let new_x = px p + fst (dir_value (next_direction p)) * pspeed p;
               new_y = py p + snd (dir_value (next_direction p)) * pspeed p
           in bind_r (pacman_check_collision p new_x new_y m)
                (\<lambda>b. Inr (if \<not> b then p\<lparr>pdirection := next_direction p\<rparr> else p))
      else Inr p)"

text \<open>The second block: the move in the facing direction, committed when unblocked.\<close>

definition pacman_move :: "grid \<Rightarrow> PacMan \<Rightarrow> error + PacMan" where
  "pacman_move m p =
     (if pdirection p \<noteq> NONE
      then let new_x = px p + fst (dir_value (pdirection p)) * pspeed p;
               new_y = py p + snd (dir_value (pdirection p)) * pspeed p
           in bind_r (pacman_check_collision p new_x new_y m)
                (\<lambda>b. Inr (if \<not> b then p\<lparr>px := new_x, py := new_y\<rparr> else p))
      else Inr p)"

definition pacman_wrap :: "PacMan \<Rightarrow> PacMan" where
  "pacman_wrap p = p\<lparr>px := wrap_x (px p)\<rparr>"

text \<open>\<^verbatim>\<open>PacMan.update(maze)\<close>\<close>

definition PacMan_update :: "grid \<Rightarrow> PacMan \<Rightarrow> error + PacMan" where
  "PacMan_update m p =
     bind_r (pacman_turn m p) (\<lambda>p1.
     bind_r (pacman_move m p1) (\<lambda>p2.
     Inr (pacman_wrap p2)))"

text \<open>\<^verbatim>\<open>PacMan.reset_position()\<close>\<close>

definition pacman_reset_position :: "PacMan \<Rightarrow> PacMan" where
  "pacman_reset_position p = p\<lparr>px := pstart_x p, py := pstart_y p, pdirection := NONE\<rparr>"

subsection \<open>The adversaries: class Ghost\<close>

record Ghost =
  gx :: real
  gy :: real
  gstart_x :: real
  gstart_y :: real
  gdirection :: Direction
  gspeed :: real
  gradius :: int
  frightened :: bool
  frightened_timer :: int
  blink :: bool

text \<open>\<^verbatim>\<open>Ghost.__init__(x, y, color, name)\<close>; colour and name only reach the renderer.\<close>

definition Ghost_init :: "real \<Rightarrow> real \<Rightarrow> Ghost" where
  "Ghost_init x0 y0 =
     \<lparr>gx = x0, gy = y0, gstart_x = x0, gstart_y = y0, gdirection = RIGHT,
      gspeed = GHOST_SPEED, gradius = CELL_SIZE div 2 - 2,
      frightened = False, frightened_timer = 0, blink = False\<rparr>"

text \<open>\<^verbatim>\<open>Ghost.check_collision(x, y, maze)\<close>: a point outside the grid is blocked.\<close>

definition ghost_check_collision :: "real \<Rightarrow> real \<Rightarrow> grid \<Rightarrow> error + bool" where
  "ghost_check_collision cx cy m =
     (let mx = cell_of cx; my = cell_of cy
      in if in_grid m my mx
         then bind_r (maze_get m my mx) (\<lambda>t. Inr (t = 1))
         else Inr True)"

text \<open>\<^verbatim>\<open>Ghost.set_frightened(duration)\<close>\<close>

definition set_frightened :: "int \<Rightarrow> Ghost \<Rightarrow> Ghost" where
  "set_frightened duration g =
     g\<lparr>frightened := True, frightened_timer := duration, gspeed := FRIGHTENED_SPEED\<rparr>"

text \<open>\<^verbatim>\<open>Ghost.reset_position()\<close>\<close>

definition ghost_reset_position :: "Ghost \<Rightarrow> Ghost" where
  "ghost_reset_position g = g\<lparr>gx := gstart_x g, gy := gstart_y g, frightened := False\<rparr>"

text \<open>The countdown block at the head of \<^verbatim>\<open>Ghost.update\<close>.\<close>

definition ghost_countdown :: "Ghost \<Rightarrow> Ghost" where
  "ghost_countdown g =
     (if frightened g
      then let g1 = g\<lparr>frightened_timer := frightened_timer g - 1\<rparr>;
               g2 = g1\<lparr>blink := (frightened_timer g1 < 120 \<and>
                                   (frightened_timer g1 div 10) mod 2 = 0)\<rparr>
           in if frightened_timer g2 \<le> 0
              then g2\<lparr>frightened := False, gspeed := GHOST_SPEED\<rparr>
              else g2
      else g)"

text \<open>
  The point \<^verbatim>\<open>(test_x, test_y)\<close> that \<^verbatim>\<open>chase_pacman\<close>, \<^verbatim>\<open>flee_from_pacman\<close> and
  \<^verbatim>\<open>choose_random_direction\<close> test: five steps ahead in direction \<open>d\<close>.
\<close>

definition lookahead_blocked :: "grid \<Rightarrow> Ghost \<Rightarrow> Direction \<Rightarrow> error + bool" where
  "lookahead_blocked m g d =
     (let test_x = gx g + fst (dir_value d) * gspeed g * 5;
          test_y = gy g + snd (dir_value d) * gspeed g * 5
      in ghost_check_collision test_x test_y m)"

text \<open>The choice of \<^verbatim>\<open>new_dir\<close> from \<^verbatim>\<open>(dx, dy)\<close>, the same in chase and flee.\<close>

definition dominant_dir :: "real \<Rightarrow> real \<Rightarrow> Direction" where
  "dominant_dir dx dy =
     (if \<bar>dx\<bar> > \<bar>dy\<bar> then (if dx > 0 then RIGHT else LEFT)
      else (if dy > 0 then DOWN else UP))"

text \<open>\<^verbatim>\<open>Ghost.chase_pacman(maze, pacman)\<close>\<close>

definition chase_dir :: "PacMan \<Rightarrow> Ghost \<Rightarrow> Direction" where
  "chase_dir p g = dominant_dir (px p - gx g) (py p - gy g)"

definition chase_pacman :: "grid \<Rightarrow> PacMan \<Rightarrow> Ghost \<Rightarrow> error + Ghost" where
  "chase_pacman m p g =
     (let new_dir = chase_dir p g
      in bind_r (lookahead_blocked m g new_dir)
           (\<lambda>b. Inr (if \<not> b then g\<lparr>gdirection := new_dir\<rparr> else g)))"

text \<open>\<^verbatim>\<open>Ghost.flee_from_pacman(maze, pacman)\<close>\<close>

definition flee_dir :: "PacMan \<Rightarrow> Ghost \<Rightarrow> Direction" where
  "flee_dir p g = dominant_dir (gx g - px p) (gy g - py p)"

definition flee_from_pacman :: "grid \<Rightarrow> PacMan \<Rightarrow> Ghost \<Rightarrow> error + Ghost" where
  "flee_from_pacman m p g =
     (let new_dir = flee_dir p g
      in bind_r (lookahead_blocked m g new_dir)
           (\<lambda>b. Inr (if \<not> b then g\<lparr>gdirection := new_dir\<rparr> else g)))"

text \<open>
  \<^verbatim>\<open>Ghost.choose_random_direction(maze)\<close>, the loop over the shuffled list: the first
  direction whose lookahead point is free becomes the facing, none leaves it unchanged.
\<close>

fun choose_from :: "grid \<Rightarrow> Direction list \<Rightarrow> Ghost \<Rightarrow> error + Ghost" where
  "choose_from m [] g = Inr g"
| "choose_from m (d # ds) g =
     bind_r (lookahead_blocked m g d)
       (\<lambda>b. if \<not> b then Inr (g\<lparr>gdirection := d\<rparr>) else choose_from m ds g)"

definition choose_random_direction :: "Direction list \<Rightarrow> grid \<Rightarrow> Ghost \<Rightarrow> error + Ghost" where
  "choose_random_direction shuffled m g = choose_from m shuffled g"

text \<open>The decision block of \<^verbatim>\<open>Ghost.update\<close>: chase when not frightened, flee otherwise.\<close>

definition ghost_decide :: "grid \<Rightarrow> PacMan \<Rightarrow> Ghost \<Rightarrow> error + Ghost" where
  "ghost_decide m p g =
     (if \<not> frightened g then chase_pacman m p g else flee_from_pacman m p g)"

text \<open>The movement block: one step in the facing, or a new random facing when blocked.\<close>

definition ghost_move :: "Direction list \<Rightarrow> grid \<Rightarrow> Ghost \<Rightarrow> error + Ghost" where
  "ghost_move shuffled m g =
     (let new_x = gx g + fst (dir_value (gdirection g)) * gspeed g;
          new_y = gy g + snd (dir_value (gdirection g)) * gspeed g
      in bind_r (ghost_check_collision new_x new_y m)
           (\<lambda>b. if \<not> b then Inr (g\<lparr>gx := new_x, gy := new_y\<rparr>)
                else choose_random_direction shuffled m g))"

definition ghost_wrap :: "Ghost \<Rightarrow> Ghost" where
  "ghost_wrap g = g\<lparr>gx := wrap_x (gx g)\<rparr>"

text \<open>\<^verbatim>\<open>Ghost.update(maze, pacman)\<close>\<close>

definition Ghost_update :: "Direction list \<Rightarrow> grid \<Rightarrow> PacMan \<Rightarrow> Ghost \<Rightarrow> error + Ghost" where
  "Ghost_update shuffled m p g =
     bind_r (ghost_decide m p (ghost_countdown g)) (\<lambda>g1.
     bind_r (ghost_move shuffled m g1) (\<lambda>g2.
     Inr (ghost_wrap g2)))"

subsection \<open>Level templates\<close>

record Level =
  ghost_count :: int
  speed_multiplier :: real
  level_maze :: grid

definition LEVEL_1 :: Level where
  "LEVEL_1 = \<lparr>ghost_count = 2, speed_multiplier = 1, level_maze =
     [[1, 1, 1, 1, 1, 1, 1, 1, 1, 1, 1, 1, 1, 1, 1, 1, 1, 1, 1, 1],
      [1, 2, 2, 2, 2, 2, 2, 2, 2, 1, 1, 2, 2, 2, 2, 2, 2, 2, 2, 1],
      [1, 3, 1, 1, 2, 1, 1, 1, 2, 1, 1, 2, 1, 1, 1, 2, 1, 1, 3, 1],
      [1, 2, 2, 2, 2, 2, 2, 2, 2, 2, 2, 2, 2, 2, 2, 2, 2, 2, 2, 1],
      [1, 2, 1, 1, 2, 1, 2, 1, 1, 1, 1, 1, 1, 2, 1, 2, 1, 1, 2, 1],
      [1, 2, 2, 2, 2, 1, 2, 2, 2, 1, 1, 2, 2, 2, 1, 2, 2, 2, 2, 1],
      [1, 1, 1, 1, 2, 1, 1, 1, 2, 1, 1, 2, 1, 1, 1, 2, 1, 1, 1, 1],
      [1, 2, 2, 2, 2, 2, 2, 2, 2, 2, 2, 2, 2, 2, 2, 2, 2, 2, 2, 1],
      [1, 2, 1, 1, 2, 1, 2, 1, 1, 0, 0, 1, 1, 2, 1, 2, 1, 1, 2, 1],
      [1, 2, 2, 2, 2, 2, 2, 1, 0, 0, 0, 0, 1, 2, 2, 2, 2, 2, 2, 1],
      [1, 2, 1, 1, 2, 1, 2, 1, 1, 1, 1, 1, 1, 2, 1, 2, 1, 1, 2, 1],
      [1, 2, 2, 2, 2, 2, 2, 2, 2, 2, 2, 2, 2, 2, 2, 2, 2, 2, 2, 1],
      [1, 1, 1, 1, 2, 1, 1, 1, 2, 1, 1, 2, 1, 1, 1, 2, 1, 1, 1, 1],
      [1, 2, 2, 2, 2, 1, 2, 2, 2, 1, 1, 2, 2, 2, 1, 2, 2, 2, 2, 1],
      [1, 2, 1, 1, 2, 1, 1, 1, 2, 1, 1, 2, 1, 1, 1, 2, 1, 1, 2, 1],
      [1, 3, 2, 1, 2, 2, 2, 2, 2, 2, 2, 2, 2, 2, 2, 2, 1, 2, 3, 1],
      [1, 1, 2, 1, 2, 1, 2, 1, 1, 1, 1, 1, 1, 2, 1, 2, 1, 2, 1, 1],
      [1, 2, 2, 2, 2, 1, 2, 2, 2, 1, 1, 2, 2, 2, 1, 2, 2, 2, 2, 1],
      [1, 2, 1, 1, 1, 1, 1, 1, 2, 1, 1, 2, 1, 1, 1, 1, 1, 1, 2, 1],
      [1, 2, 2, 2, 2, 2, 2, 2, 2, 2, 2, 2, 2, 2, 2, 2, 2, 2, 2, 1],
      [1, 1, 1, 1, 1, 1, 1, 1, 1, 1, 1, 1, 1, 1, 1, 1, 1, 1, 1, 1]]\<rparr>"

definition LEVEL_2 :: Level where
  "LEVEL_2 = \<lparr>ghost_count = 3, speed_multiplier = 13 / 10, level_maze =
     [[1, 1, 1, 1, 1, 1, 1, 1, 1, 1, 1, 1, 1, 1, 1, 1, 1, 1, 1, 1],
      [1, 3, 2, 2, 2, 2, 2, 2, 2, 2, 2, 2, 2, 2, 2, 2, 2, 2, 3, 1],
      [1, 2, 1, 1, 1, 2, 1, 1, 1, 1, 1, 1, 1, 1, 2, 1, 1, 1, 2, 1],
      [1, 2, 1, 2, 2, 2, 2, 2, 2, 1, 1, 2, 2, 2, 2, 2, 2, 1, 2, 1],
      [1, 2, 1, 2, 1, 1, 1, 1, 2, 1, 1, 2, 1, 1, 1, 1, 2, 1, 2, 1],
      [1, 2, 2, 2, 1, 2, 2, 2, 2, 2, 2, 2, 2, 2, 2, 1, 2, 2, 2, 1],
      [1, 1, 1, 2, 1, 2, 1, 1, 1, 1, 1, 1, 1, 1, 2, 1, 2, 1, 1, 1],
      [1, 2, 2, 2, 2, 2, 2, 2, 2, 1, 1, 2, 2, 2, 2, 2, 2, 2, 2, 1],
      [1, 2, 1, 1, 1, 1, 1, 1, 2, 1, 1, 2, 1, 1, 1, 1, 1, 1, 2, 1],
      [1, 2, 2, 2, 2, 2, 2, 2, 2, 0, 0, 2, 2, 2, 2, 2, 2, 2, 2, 1],
      [1, 2, 1, 1, 1, 1, 1, 1, 2, 1, 1, 2, 1, 1, 1, 1, 1, 1, 2, 1],
      [1, 2, 2, 2, 2, 2, 2, 2, 2, 1, 1, 2, 2, 2, 2, 2, 2, 2, 2, 1],
      [1, 1, 1, 2, 1, 2, 1, 1, 1, 1, 1, 1, 1, 1, 2, 1, 2, 1, 1, 1],
      [1, 2, 2, 2, 1, 2, 2, 2, 2, 2, 2, 2, 2, 2, 2, 1, 2, 2, 2, 1],
      [1, 2, 1, 2, 1, 1, 1, 1, 2, 1, 1, 2, 1, 1, 1, 1, 2, 1, 2, 1],
      [1, 2, 1, 2, 2, 2, 2, 2, 2, 1, 1, 2, 2, 2, 2, 2, 2, 1, 2, 1],
      [1, 2, 1, 1, 1, 2, 1, 1, 1, 1, 1, 1, 1, 1, 2, 1, 1, 1, 2, 1],
      [1, 3, 2, 2, 2, 2, 2, 2, 2, 2, 2, 2, 2, 2, 2, 2, 2, 2, 3, 1],
      [1, 2, 1, 1, 1, 1, 1, 1, 1, 1, 1, 1, 1, 1, 1, 1, 1, 1, 2, 1],
      [1, 2, 2, 2, 2, 2, 2, 2, 2, 2, 2, 2, 2, 2, 2, 2, 2, 2, 2, 1],
      [1, 1, 1, 1, 1, 1, 1, 1, 1, 1, 1, 1, 1, 1, 1, 1, 1, 1, 1, 1]]\<rparr>"

definition LEVEL_3 :: Level where
  "LEVEL_3 = \<lparr>ghost_count = 4, speed_multiplier = 16 / 10, level_maze =
     [[1, 1, 1, 1, 1, 1, 1, 1, 1, 1, 1, 1, 1, 1, 1, 1, 1, 1, 1, 1],
      [1, 3, 2, 2, 1, 2, 2, 2, 2, 2, 2, 2, 2, 2, 2, 1, 2, 2, 3, 1],
      [1, 2, 1, 2, 1, 2, 1, 1, 1, 1, 1, 1, 1, 1, 2, 1, 2, 1, 2, 1],
      [1, 2, 1, 2, 2, 2, 2, 2, 2, 1, 1, 2, 2, 2, 2, 2, 2, 1, 2, 1],
      [1, 2, 1, 1, 1, 1, 1, 1, 2, 1, 1, 2, 1, 1, 1, 1, 1, 1, 2, 1],
      [1, 2, 2, 2, 2, 2, 2, 2, 2, 2, 2, 2, 2, 2, 2, 2, 2, 2, 2, 1],
      [1, 1, 1, 1, 1, 2, 1, 1, 1, 1, 1, 1, 1, 1, 2, 1, 1, 1, 1, 1],
      [1, 2, 2, 2, 2, 2, 2, 2, 2, 1, 1, 2, 2, 2, 2, 2, 2, 2, 2, 1],
      [1, 2, 1, 1, 1, 1, 1, 1, 2, 1, 1, 2, 1, 1, 1, 1, 1, 1, 2, 1],
      [1, 2, 2, 2, 1, 2, 2, 2, 2, 0, 0, 2, 2, 2, 2, 1, 2, 2, 2, 1],
      [1, 2, 1, 2, 1, 2, 1, 1, 1, 1, 1, 1, 1, 1, 2, 1, 2, 1, 2, 1],
      [1, 2, 1, 2, 2, 2, 1, 2, 2, 2, 2, 2, 2, 1, 2, 2, 2, 1, 2, 1],
      [1, 2, 1, 1, 1, 2, 1, 2, 1, 1, 1, 1, 2, 1, 2, 1, 1, 1, 2, 1],
      [1, 2, 2, 2, 2, 2, 2, 2, 2, 1, 1, 2, 2, 2, 2, 2, 2, 2, 2, 1],
      [1, 1, 1, 1, 1, 2, 1, 1, 1, 1, 1, 1, 1, 1, 2, 1, 1, 1, 1, 1],
      [1, 2, 2, 2, 2, 2, 2, 2, 2, 2, 2, 2, 2, 2, 2, 2, 2, 2, 2, 1],
      [1, 2, 1, 1, 1, 1, 1, 1, 2, 1, 1, 2, 1, 1, 1, 1, 1, 1, 2, 1],
      [1, 2, 2, 2, 2, 2, 2, 2, 2, 1, 1, 2, 2, 2, 2, 2, 2, 2, 2, 1],
      [1, 2, 1, 1, 1, 2, 1, 1, 1, 1, 1, 1, 1, 1, 2, 1, 1, 1, 2, 1],
      [1, 3, 2, 2, 2, 2, 2, 2, 2, 2, 2, 2, 2, 2, 2, 2, 2, 2, 3, 1],
      [1, 1, 1, 1, 1, 1, 1, 1, 1, 1, 1, 1, 1, 1, 1, 1, 1, 1, 1, 1]]\<rparr>"

definition LEVELS :: "Level list" where
  "LEVELS = [LEVEL_1, LEVEL_2, LEVEL_3]"

text \<open>The list \<^verbatim>\<open>colors\<close> of \<^verbatim>\<open>setup_level\<close>, by the names of its entries.\<close>

definition colors :: "string list" where
  "colors = [''Blinky'', ''Pinky'', ''Inky'', ''Clyde'']"

subsection \<open>The session: class Game\<close>

record Game =
  selected_level :: int
  maze :: grid
  pacman :: PacMan
  ghosts :: "Ghost list"
  score :: int
  high_score :: int
  lives :: int
  game_over :: bool
  win :: bool
  pellets_remaining :: int
  pellets_total :: int

text \<open>
  \<^verbatim>\<open>Game.find_spawn()\<close>. The inner loop scans one row over \<^verbatim>\<open>range(len(self.maze[0]))\<close>;
  a row shorter than row 0 raises at the first column it does not have.
\<close>

fun find_spawn_row :: "int list \<Rightarrow> nat list \<Rightarrow> error + nat option" where
  "find_spawn_row row [] = Inr None"
| "find_spawn_row row (c # cs) =
     bind_r (py_index row (int c))
       (\<lambda>t. if t \<in> {0, 2, 3} then Inr (Some c) else find_spawn_row row cs)"

fun find_spawn_rows :: "grid \<Rightarrow> nat list \<Rightarrow> error + real \<times> real" where
  "find_spawn_rows m [] = Inr (300, 450)"
| "find_spawn_rows m (r # rs) =
     bind_r (py_index m 0) (\<lambda>row0.
     bind_r (py_index m (int r)) (\<lambda>row.
     bind_r (find_spawn_row row [0..<length row0]) (\<lambda>found.
       case found of
         Some c \<Rightarrow> Inr (real_of_int (int c * CELL_SIZE + CELL_SIZE div 2),
                         real_of_int (int r * CELL_SIZE + CELL_SIZE div 2))
       | None \<Rightarrow> find_spawn_rows m rs)))"

definition find_spawn :: "grid \<Rightarrow> error + real \<times> real" where
  "find_spawn m = find_spawn_rows m [length m div 2..<length m]"

text \<open>The loop \<^verbatim>\<open>for i in range(level["ghost_count"])\<close> of \<^verbatim>\<open>setup_level\<close>.\<close>

fun make_ghosts :: "Level \<Rightarrow> nat list \<Rightarrow> error + Ghost list" where
  "make_ghosts lvl [] = Inr []"
| "make_ghosts lvl (i # rest) =
     bind_r (py_index colors (int i)) (\<lambda>name.
     bind_r (make_ghosts lvl rest) (\<lambda>gs.
       Inr ((Ghost_init (real_of_int (CELL_SIZE * (9 + int i))) (real_of_int (CELL_SIZE * 9)))
              \<lparr>gspeed := GHOST_SPEED * speed_multiplier lvl\<rparr> # gs)))"

text \<open>\<^verbatim>\<open>sum(row.count(2) + row.count(3) for row in self.maze)\<close>\<close>

definition count_pellets :: "grid \<Rightarrow> int" where
  "count_pellets m = sum_list (map (\<lambda>row. int (count_list row 2) + int (count_list row 3)) m)"

text \<open>
  The body of \<^verbatim>\<open>Game.setup_level\<close> after the lookup of the template: \<open>lvl\<close> is
  \<^verbatim>\<open>LEVELS[level_idx]\<close>, \<open>hs\<close> the high score that the \<^verbatim>\<open>Game\<close> object carries over.
\<close>

definition setup_level_with :: "Level \<Rightarrow> int \<Rightarrow> int \<Rightarrow> error + Game" where
  "setup_level_with lvl level_idx hs =
     (let m = level_maze lvl
      in bind_r (find_spawn m) (\<lambda>spawn.
         bind_r (make_ghosts lvl [0..<nat (ghost_count lvl)]) (\<lambda>gs.
           Inr \<lparr>selected_level = level_idx, maze = m,
                pacman = PacMan_init (fst spawn) (snd spawn), ghosts = gs,
                score = 0, high_score = hs, lives = 3, game_over = False, win = False,
                pellets_remaining = count_pellets m, pellets_total = count_pellets m\<rparr>)))"

text \<open>\<^verbatim>\<open>Game.setup_level(level_idx)\<close>\<close>

definition setup_level :: "int \<Rightarrow> int \<Rightarrow> error + Game" where
  "setup_level level_idx hs =
     bind_r (py_index LEVELS level_idx) (\<lambda>lvl. setup_level_with lvl level_idx hs)"

text \<open>\<^verbatim>\<open>self.maze[my][mx] = 0\<close>, reached only after \<^verbatim>\<open>self.maze[my][mx]\<close> was read.\<close>

definition maze_set :: "grid \<Rightarrow> int \<Rightarrow> int \<Rightarrow> int \<Rightarrow> grid" where
  "maze_set m my mx v = m[nat my := (m ! nat my)[nat mx := v]]"

text \<open>The pickup block of \<^verbatim>\<open>update_game\<close>: the tile under the player after its move.\<close>

definition pickup :: "Game \<Rightarrow> error + Game" where
  "pickup s =
     (let mx = cell_of (px (pacman s)); my = cell_of (py (pacman s))
      in if in_grid (maze s) my mx
         then bind_r (maze_get (maze s) my mx) (\<lambda>t.
                if t = 2
                then Inr (s\<lparr>maze := maze_set (maze s) my mx 0,
                            score := score s + 10,
                            pellets_remaining := pellets_remaining s - 1\<rparr>)
                else if t = 3
                then Inr (s\<lparr>maze := maze_set (maze s) my mx 0,
                            score := score s + 50,
                            pellets_remaining := pellets_remaining s - 1,
                            ghosts := map (set_frightened 300) (ghosts s)\<rparr>)
                else Inr s)
         else Inr s)"

text \<open>The block \<^verbatim>\<open>if self.pellets_remaining == 0\<close>.\<close>

definition win_check :: "Game \<Rightarrow> Game" where
  "win_check s =
     (if pellets_remaining s = 0
      then s\<lparr>win := True,
             high_score := (if score s > high_score s then score s else high_score s)\<rparr>
      else s)"

text \<open>\<^verbatim>\<open>dist < CELL_SIZE * 0.7\<close> for the player and one adversary.\<close>

definition near :: "PacMan \<Rightarrow> Ghost \<Rightarrow> bool" where
  "near p g =
     (sqrt ((px p - gx g)\<^sup>2 + (py p - gy g)\<^sup>2) < real_of_int CELL_SIZE * (7 / 10))"

text \<open>The branch \<^verbatim>\<open>if ghost.frightened\<close> of the collision: the adversary \<open>i\<close> is captured.\<close>

definition capture :: "nat \<Rightarrow> Game \<Rightarrow> Game" where
  "capture i s =
     s\<lparr>score := score s + 200,
       ghosts := (ghosts s)[i := ghost_reset_position (ghosts s ! i)]\<rparr>"

text \<open>The \<^verbatim>\<open>else\<close> branch: a life is lost.\<close>

definition lose_life :: "Game \<Rightarrow> Game" where
  "lose_life s =
     (let s1 = s\<lparr>lives := lives s - 1\<rparr>
      in if lives s1 \<le> 0
         then s1\<lparr>game_over := True,
                 high_score := (if score s1 > high_score s1 then score s1 else high_score s1)\<rparr>
         else s1\<lparr>pacman := pacman_reset_position (pacman s1),
                 ghosts := map ghost_reset_position (ghosts s1)\<rparr>)"

text \<open>
  One iteration of \<^verbatim>\<open>for ghost in self.ghosts\<close>, for the adversary at index \<open>i\<close>:
  its update, then its collision with the player.
\<close>

definition ghost_step :: "Direction list \<Rightarrow> nat \<Rightarrow> Game \<Rightarrow> error + Game" where
  "ghost_step shuffled i s =
     bind_r (Ghost_update shuffled (maze s) (pacman s) (ghosts s ! i)) (\<lambda>g.
       let s1 = s\<lparr>ghosts := (ghosts s)[i := g]\<rparr>
       in Inr (if near (pacman s1) g
               then (if frightened g then capture i s1 else lose_life s1)
               else s1))"

text \<open>
  The loop over the adversaries in list order. The list keeps its length (only its
  elements are mutated), so the loop runs over the indices fixed at its start;
  \<open>shuf i\<close> is what \<^verbatim>\<open>random.shuffle\<close> yields if the update of adversary \<open>i\<close> calls it.
\<close>

fun ghost_loop :: "(nat \<Rightarrow> Direction list) \<Rightarrow> nat list \<Rightarrow> Game \<Rightarrow> error + Game" where
  "ghost_loop shuf [] s = Inr s"
| "ghost_loop shuf (i # rest) s =
     bind_r (ghost_step (shuf i) i s) (ghost_loop shuf rest)"

text \<open>\<^verbatim>\<open>Game.update_game()\<close>: one tick.\<close>

definition update_game :: "(nat \<Rightarrow> Direction list) \<Rightarrow> Game \<Rightarrow> error + Game" where
  "update_game shuf s =
     (if game_over s \<or> win s then Inr s
      else bind_r (PacMan_update (maze s) (pacman s)) (\<lambda>p.
           bind_r (pickup (s\<lparr>pacman := p\<rparr>)) (\<lambda>s2.
           let s3 = win_check s2
           in ghost_loop shuf [0..<length (ghosts s3)] s3)))"

subsection \<open>Auxiliary notions for the properties\<close>

text \<open>A maze all of whose rows have the width of row 0: no subscript of it can raise.\<close>

definition rectangular :: "grid \<Rightarrow> bool" where
  "rectangular m = list_all (\<lambda>row. length row = length (hd m)) m"


text \<open>The attributes of an adversary that only the countdown, a pickup or a reset change.\<close>

definition same_mode :: "Ghost \<Rightarrow> Ghost \<Rightarrow> bool" where
  "same_mode g g' \<longleftrightarrow>
     frightened g' = frightened g \<and> frightened_timer g' = frightened_timer g \<and>
     gspeed g' = gspeed g \<and> gstart_x g' = gstart_x g \<and> gstart_y g' = gstart_y g"

text \<open>
  The sessions the program can be in: built by \<^verbatim>\<open>setup_level\<close> from a template, advanced
  by a tick, or given a directional intent by \<^verbatim>\<open>handle_game_input\<close> while in progress.
\<close>

definition set_intent :: "Direction \<Rightarrow> Game \<Rightarrow> Game" where
  "set_intent d s = s\<lparr>pacman := (pacman s)\<lparr>next_direction := d\<rparr>\<rparr>"

inductive reachable :: "Game \<Rightarrow> bool" where
  start: "setup_level_with lvl idx hs = Inr s \<Longrightarrow> reachable s"
| tick: "reachable s \<Longrightarrow> update_game shuf s = Inr s' \<Longrightarrow> reachable s'"
| intent: "reachable s \<Longrightarrow> \<not> (game_over s \<or> win s) \<Longrightarrow> d \<noteq> NONE \<Longrightarrow>
     reachable (set_intent d s)"

text \<open>An actor stands on its spawn coordinate.\<close>

definition at_spawn :: "Ghost \<Rightarrow> bool" where
  "at_spawn g \<longleftrightarrow> gx g = gstart_x g \<and> gy g = gstart_y g"

definition player_at_spawn :: "PacMan \<Rightarrow> bool" where
  "player_at_spawn p \<longleftrightarrow> px p = pstart_x p \<and> py p = pstart_y p"

text \<open>
  An adversary at the end of a tick that began with a power pickup: still Evading with
  one tick of the countdown gone, or captured in that tick.
\<close>

definition evading_or_captured :: "Ghost \<Rightarrow> bool" where
  "evading_or_captured g \<longleftrightarrow>
     (frightened g \<and> frightened_timer g = 299) \<or> (\<not> frightened g \<and> at_spawn g)"

subsection \<open>Example sessions\<close>

text \<open>A single open row of twenty tiles: a maze without a border wall.\<close>

definition corridor :: grid where
  "corridor = [[0, 0, 0, 0, 0, 0, 0, 0, 0, 0, 0, 0, 0, 0, 0, 0, 0, 0, 0, 0]]"

definition edge_player :: PacMan where
  "edge_player = PacMan_init 599 15"

definition far_ghost :: Ghost where
  "far_ghost = Ghost_init 45 15"

text \<open>A walled corridor with a power pellet at column 2 and a pellet at column 4.\<close>

definition power_corridor :: grid where
  "power_corridor =
     [[1, 1, 1, 1, 1, 1],
      [1, 0, 3, 0, 2, 1],
      [1, 1, 1, 1, 1, 1]]"

definition power_session :: Game where
  "power_session =
     \<lparr>selected_level = 0, maze = power_corridor, pacman = PacMan_init 58 45,
      ghosts = [Ghost_init 135 45], score = 0, high_score = 0, lives = 3,
      game_over = False, win = False, pellets_remaining = 2, pellets_total = 2\<rparr>"

text \<open>The session that \<^verbatim>\<open>setup_level(0)\<close> builds from the first template.\<close>

definition level1_start :: Game where
  "level1_start =
     \<lparr>selected_level = 0, maze = level_maze LEVEL_1, pacman = PacMan_init 45 315,
      ghosts = [Ghost_init 270 270, Ghost_init 300 270],
      score = 0, high_score = 0, lives = 3, game_over = False, win = False,
      pellets_remaining = 206, pellets_total = 206\<rparr>"

text \<open>
  The first level after the loss of a life: the player waits on its spawn tile, which it
  has emptied, and the first adversary comes up the corridor from the tile below.
\<close>

definition ambush_session :: Game where
  "ambush_session =
     \<lparr>selected_level = 0, maze = maze_set (level_maze LEVEL_1) 10 1 0,
      pacman = (PacMan_init 45 315)\<lparr>pdirection := NONE\<rparr>,
      ghosts = [(Ghost_init 270 270)\<lparr>gx := 45, gy := 330, gdirection := UP\<rparr>,
                Ghost_init 300 270],
      score = 10, high_score = 0, lives = 2, game_over = False, win = False,
      pellets_remaining = 205, pellets_total = 206\<rparr>"

text \<open>A corridor closed to the right, one tile high.\<close>

definition dead_end :: grid where
  "dead_end =
     [[1, 1, 1],
      [0, 0, 1],
      [1, 1, 1]]"

text \<open>Templates that no validation has looked at.\<close>

definition walled_in :: Level where
  "walled_in = \<lparr>ghost_count = 0, speed_multiplier = 1, level_maze = [[1, 1], [1, 1]]\<rparr>"

definition ragged :: Level where
  "ragged = \<lparr>ghost_count = 1, speed_multiplier = 1, level_maze = [[1, 1, 1], [0]]\<rparr>"

text \<open>
  The first level with the player about to step down onto the power collectible of
  row 2, and the first adversary coming up towards it from below.
\<close>

definition chase_session :: Game where
  "chase_session =
     \<lparr>selected_level = 0, maze = level_maze LEVEL_1,
      pacman = (PacMan_init 45 315)\<lparr>px := 45, py := 59, pdirection := DOWN\<rparr>,
      ghosts = [(Ghost_init 270 270)\<lparr>gx := 45, gy := 80, gdirection := UP\<rparr>,
                Ghost_init 300 270],
      score = 0, high_score = 0, lives = 3, game_over = False, win = False,
      pellets_remaining = 206, pellets_total = 206\<rparr>"

text \<open>
  A template of ten by ten tiles, walls but for a collectible in the corner, a power
  collectible at column 8 of row 8, which is where the player spawns, and the open tile
  at column 9 of row 9, on whose corner the one adversary spawns.
\<close>

definition trap_level :: Level where
  "trap_level = \<lparr>ghost_count = 1, speed_multiplier = 1, level_maze =
     [[2, 1, 1, 1, 1, 1, 1, 1, 1, 1],
      [1, 1, 1, 1, 1, 1, 1, 1, 1, 1],
      [1, 1, 1, 1, 1, 1, 1, 1, 1, 1],
      [1, 1, 1, 1, 1, 1, 1, 1, 1, 1],
      [1, 1, 1, 1, 1, 1, 1, 1, 1, 1],
      [1, 1, 1, 1, 1, 1, 1, 1, 1, 1],
      [1, 1, 1, 1, 1, 1, 1, 1, 1, 1],
      [1, 1, 1, 1, 1, 1, 1, 1, 1, 1],
      [1, 1, 1, 1, 1, 1, 1, 1, 3, 1],
      [1, 1, 1, 1, 1, 1, 1, 1, 1, 0]]\<rparr>"

definition trap_start :: Game where
  "trap_start =
     \<lparr>selected_level = 0, maze = level_maze trap_level, pacman = PacMan_init 255 255,
      ghosts = [Ghost_init 270 270], score = 0, high_score = 0, lives = 3,
      game_over = False, win = False, pellets_remaining = 2, pellets_total = 2\<rparr>"

section \<open>Properties\<close>

subsection \<open>Unfolding sets\<close>

lemmas const_defs = SCREEN_WIDTH_def CELL_SIZE_def PACMAN_SPEED_def GHOST_SPEED_def
  FRIGHTENED_SPEED_def

lemmas grid_defs = py_index_def maze_get_def cell_of_def in_grid_def

lemmas pacman_defs = PacMan_init_def pacman_corner_blocked_def pacman_corners_def
  pacman_check_collision_def pacman_turn_def pacman_move_def pacman_wrap_def
  PacMan_update_def pacman_reset_position_def wrap_x_def

lemmas ghost_defs = Ghost_init_def ghost_check_collision_def set_frightened_def
  ghost_reset_position_def ghost_countdown_def lookahead_blocked_def dominant_dir_def
  chase_dir_def chase_pacman_def flee_dir_def flee_from_pacman_def
  choose_random_direction_def ghost_decide_def ghost_move_def ghost_wrap_def
  Ghost_update_def

lemma near_sq [code]:
  "near p g \<longleftrightarrow> (px p - gx g) * (px p - gx g) + (py p - gy g) * (py p - gy g) < 441"
proof -
  have "sqrt 441 = 21" by (rule real_sqrt_unique) simp_all
  then have "\<And>v::real. sqrt v < 21 \<longleftrightarrow> v < 441"
    by (metis real_sqrt_less_iff)
  then show ?thesis by (simp add: near_def CELL_SIZE_def power2_eq_square)
qed

lemmas game_defs = pickup_def maze_set_def win_check_def capture_def lose_life_def
  ghost_step_def update_game_def near_sq

subsection \<open>Sequencing and totality on rectangular mazes\<close>

lemma bind_r_Inr_iff: "bind_r c f = Inr v \<longleftrightarrow> (\<exists>u. c = Inr u \<and> f u = Inr v)"
  by (cases c) simp_all

lemma maze_get_rectangular:
  assumes "rectangular m" and "in_grid m my mx"
  shows "\<exists>t. maze_get m my mx = Inr t"
proof -
  from assms(2) have r: "0 \<le> my" "my < int (length m)" and c: "0 \<le> mx" "mx < int (length (hd m))"
    by (simp_all add: in_grid_def)
  from r have "m ! nat my \<in> set m" by simp
  with assms(1) have "length (m ! nat my) = length (hd m)"
    by (simp add: rectangular_def list_all_iff)
  with r c show ?thesis
    by (simp add: maze_get_def py_index_def)
qed

lemma ghost_check_collision_returns:
  "rectangular m \<Longrightarrow> \<exists>b. ghost_check_collision cx cy m = Inr b"
  using maze_get_rectangular [of m "cell_of cy" "cell_of cx"]
  by (auto simp add: ghost_check_collision_def Let_def)

lemma lookahead_blocked_returns:
  "rectangular m \<Longrightarrow> \<exists>b. lookahead_blocked m g d = Inr b"
  by (simp add: lookahead_blocked_def Let_def ghost_check_collision_returns)

lemma ghost_decide_returns:
  "rectangular m \<Longrightarrow> \<exists>g'. ghost_decide m p g = Inr g'"
  using lookahead_blocked_returns [of m g "chase_dir p g"]
    lookahead_blocked_returns [of m g "flee_dir p g"]
  by (auto simp add: ghost_decide_def chase_pacman_def flee_from_pacman_def Let_def)

lemma choose_from_returns:
  "rectangular m \<Longrightarrow> \<exists>g'. choose_from m ds g = Inr g'"
proof (induction ds)
  case Nil
  then show ?case by simp
next
  case (Cons d ds)
  from lookahead_blocked_returns [OF Cons.prems, of g d]
  obtain b where "lookahead_blocked m g d = Inr b" ..
  with Cons show ?case by simp
qed

lemma ghost_move_returns:
  assumes "rectangular m"
  shows "\<exists>g'. ghost_move sh m g = Inr g'"
proof -
  let ?nx = "gx g + fst (dir_value (gdirection g)) * gspeed g"
  let ?ny = "gy g + snd (dir_value (gdirection g)) * gspeed g"
  from ghost_check_collision_returns [OF assms, of ?nx ?ny]
  obtain b where "ghost_check_collision ?nx ?ny m = Inr b" ..
  then show ?thesis
    using choose_from_returns [OF assms, of sh g]
    by (simp add: ghost_move_def Let_def choose_random_direction_def)
qed

lemma Ghost_update_returns:
  assumes "rectangular m"
  shows "\<exists>g'. Ghost_update sh m p g = Inr g'"
proof -
  from ghost_decide_returns [OF assms] obtain g1
    where d: "ghost_decide m p (ghost_countdown g) = Inr g1" by blast
  from ghost_move_returns [OF assms] obtain g2
    where "ghost_move sh m g1 = Inr g2" by blast
  with d show ?thesis by (simp add: Ghost_update_def)
qed

subsection \<open>What an update of an adversary leaves alone\<close>

lemma choose_from_same_mode:
  "choose_from m ds g = Inr g' \<Longrightarrow> same_mode g g' \<and> gx g' = gx g \<and> gy g' = gy g"
  by (induction ds) (auto simp add: same_mode_def bind_r_Inr_iff split: if_splits)

lemma ghost_decide_same_mode:
  "ghost_decide m p g = Inr g' \<Longrightarrow> same_mode g g' \<and> gx g' = gx g \<and> gy g' = gy g"
  by (auto simp add: ghost_decide_def chase_pacman_def flee_from_pacman_def Let_def
      same_mode_def bind_r_Inr_iff split: if_splits)

lemma ghost_move_same_mode:
  "ghost_move sh m g = Inr g' \<Longrightarrow> same_mode g g'"
  using choose_from_same_mode [of m sh g g']
  by (auto simp add: ghost_move_def Let_def choose_random_direction_def
      same_mode_def bind_r_Inr_iff split: if_splits)

lemma Ghost_update_same_mode:
  assumes "Ghost_update sh m p g = Inr g'"
  shows "same_mode (ghost_countdown g) g'"
proof -
  from assms obtain g1 g2 where d: "ghost_decide m p (ghost_countdown g) = Inr g1"
    and mv: "ghost_move sh m g1 = Inr g2" and w: "g' = ghost_wrap g2"
    by (auto simp add: Ghost_update_def bind_r_Inr_iff)
  from ghost_decide_same_mode [OF d] ghost_move_same_mode [OF mv] w
  show ?thesis by (simp add: same_mode_def ghost_wrap_def)
qed

subsection \<open>Emptying a tile\<close>

lemma maze_get_InrD:
  assumes "maze_get m my mx = Inr t" and "0 \<le> my" and "0 \<le> mx"
  shows "nat my < length m \<and> nat mx < length (m ! nat my) \<and> m ! nat my ! nat mx = t \<and>
         my < int (length m) \<and> mx < int (length (m ! nat my))"
  using assms
  by (auto simp add: maze_get_def py_index_def bind_r_Inr_iff split: if_splits)

lemma in_grid_nonneg: "in_grid m my mx \<Longrightarrow> 0 \<le> my \<and> 0 \<le> mx"
  by (simp add: in_grid_def)

lemma length_maze_set [simp]: "length (maze_set m my mx v) = length m"
  by (simp add: maze_set_def)

lemma length_hd_maze_set [simp]: "length (hd (maze_set m my mx v)) = length (hd m)"
  by (cases m; cases "nat my") (simp_all add: maze_set_def)

lemma in_grid_maze_set [simp]: "in_grid (maze_set m my mx v) r c = in_grid m r c"
  by (simp add: in_grid_def)

lemma maze_get_maze_set_same:
  assumes "maze_get m my mx = Inr t" and "0 \<le> my" and "0 \<le> mx"
  shows "maze_get (maze_set m my mx v) my mx = Inr v"
  using maze_get_InrD [OF assms] assms(2,3)
  by (simp add: maze_get_def py_index_def maze_set_def)

lemma maze_get_maze_set_other:
  assumes "0 \<le> my" and "0 \<le> mx" and "0 \<le> r" and "0 \<le> c" and "r \<noteq> my \<or> c \<noteq> mx"
  shows "maze_get (maze_set m my mx v) r c = maze_get m r c"
proof (cases "r = my")
  case True
  with assms have "nat c \<noteq> nat mx" by auto
  with True assms show ?thesis
    by (auto simp add: maze_get_def py_index_def maze_set_def)
next
  case False
  with assms have "nat r \<noteq> nat my" by auto
  with assms show ?thesis
    by (auto simp add: maze_get_def py_index_def maze_set_def)
qed

lemma rectangular_maze_set: 
  assumes "rectangular m"
  shows "rectangular (maze_set m my mx v)"
proof -
  have "length row = length (hd m)" if "row \<in> set (maze_set m my mx v)" for row
  proof -
    from that have "row \<in> insert ((m ! nat my)[nat mx := v]) (set m)"
      using set_update_subset_insert [of m "nat my"] by (auto simp add: maze_set_def)
    moreover have "length ((m ! nat my)[nat mx := v]) = length (hd m)" if "nat my < length m"
      using assms that by (simp add: rectangular_def list_all_iff)
    moreover have "maze_set m my mx v = m" if "\<not> nat my < length m"
      using that by (simp add: maze_set_def list_update_beyond)
    ultimately show ?thesis
      using assms that by (cases "nat my < length m") (auto simp add: rectangular_def list_all_iff)
  qed
  then show ?thesis
    by (simp add: rectangular_def list_all_iff)
qed

lemma row_pellets_update:
  "j < length row \<Longrightarrow> row ! j = 2 \<or> row ! j = 3 \<Longrightarrow>
     int (count_list (row[j := 0]) 2) + int (count_list (row[j := 0]) 3) =
     int (count_list row 2) + int (count_list row (3::int)) - 1"
proof (induction row arbitrary: j)
  case Nil
  then show ?case by simp
next
  case (Cons a row)
  show ?case
  proof (cases j)
    case 0
    with Cons.prems show ?thesis by auto
  next
    case (Suc k)
    with Cons.prems have "k < length row" "row ! k = 2 \<or> row ! k = 3" by simp_all
    from Cons.IH [OF this] Suc show ?thesis by simp
  qed
qed

lemma sum_list_map_update:
  fixes f :: "'a \<Rightarrow> int"
  shows "i < length xs \<Longrightarrow> sum_list (map f (xs[i := r])) = sum_list (map f xs) - f (xs ! i) + f r"
proof (induction xs arbitrary: i)
  case Nil
  then show ?case by simp
next
  case (Cons a xs)
  then show ?case by (cases i) auto
qed

lemma count_pellets_maze_set:
  assumes "maze_get m my mx = Inr t" and "t = 2 \<or> t = 3" and "0 \<le> my" and "0 \<le> mx"
  shows "count_pellets (maze_set m my mx 0) = count_pellets m - 1"
proof -
  from maze_get_InrD [OF assms(1,3,4)] assms(2)
  have i: "nat my < length m" and j: "nat mx < length (m ! nat my)"
    and t: "m ! nat my ! nat mx = 2 \<or> m ! nat my ! nat mx = 3" by auto
  show ?thesis
    unfolding count_pellets_def maze_set_def
    by (simp add: sum_list_map_update [OF i] row_pellets_update [OF j t])
qed

lemma count_pellets_nonneg: "0 \<le> count_pellets m"
  by (auto simp add: count_pellets_def intro!: sum_list_nonneg)

subsection \<open>What the loop over the adversaries leaves alone\<close>

lemma ghost_step_frame:
  assumes "ghost_step sh i s = Inr s'"
  shows "maze s' = maze s \<and> pellets_remaining s' = pellets_remaining s \<and>
         win s' = win s \<and> length (ghosts s') = length (ghosts s) \<and>
         (game_over s \<longrightarrow> game_over s')"
  using assms
  by (auto simp add: ghost_step_def bind_r_Inr_iff Let_def capture_def lose_life_def
      split: if_splits)

lemma ghost_loop_frame:
  "ghost_loop shuf ks s = Inr s' \<Longrightarrow>
     maze s' = maze s \<and> pellets_remaining s' = pellets_remaining s \<and>
     win s' = win s \<and> length (ghosts s') = length (ghosts s) \<and>
     (game_over s \<longrightarrow> game_over s')"
proof (induction ks arbitrary: s)
  case Nil
  then show ?case by simp
next
  case (Cons k ks)
  from Cons.prems obtain s1 where a: "ghost_step (shuf k) k s = Inr s1"
    and b: "ghost_loop shuf ks s1 = Inr s'"
    by (auto simp add: bind_r_Inr_iff)
  from ghost_step_frame [OF a] Cons.IH [OF b] show ?case by simp
qed

lemma pickup_pellets:
  assumes "pickup s = Inr s'" and "pellets_remaining s = count_pellets (maze s)"
  shows "pellets_remaining s' = count_pellets (maze s') \<and>
         pellets_remaining s' \<le> pellets_remaining s"
proof (cases "in_grid (maze s) (cell_of (py (pacman s))) (cell_of (px (pacman s)))")
  case False
  with assms show ?thesis by (simp add: pickup_def Let_def)
next
  case True
  let ?my = "cell_of (py (pacman s))" and ?mx = "cell_of (px (pacman s))"
  from True assms(1) obtain t where t: "maze_get (maze s) ?my ?mx = Inr t"
    by (auto simp add: pickup_def Let_def bind_r_Inr_iff)
  from in_grid_nonneg [OF True] have nn: "0 \<le> ?my" "0 \<le> ?mx" by simp_all
  show ?thesis
  proof (cases "t = 2 \<or> t = 3")
    case True
    from count_pellets_maze_set [OF t True nn] assms \<open>in_grid _ _ _\<close> t True
    show ?thesis by (auto simp add: pickup_def Let_def)
  next
    case False
    with assms \<open>in_grid _ _ _\<close> t show ?thesis by (auto simp add: pickup_def Let_def)
  qed
qed

lemma update_game_pellets:
  assumes "update_game shuf s = Inr s'" and "pellets_remaining s = count_pellets (maze s)"
  shows "pellets_remaining s' = count_pellets (maze s') \<and>
         pellets_remaining s' \<le> pellets_remaining s"
proof (cases "game_over s \<or> win s")
  case True
  with assms show ?thesis by (auto simp add: update_game_def)
next
  case False
  with assms(1) obtain p s2 where p: "PacMan_update (maze s) (pacman s) = Inr p"
    and s2: "pickup (s\<lparr>pacman := p\<rparr>) = Inr s2"
    and l: "ghost_loop shuf [0..<length (ghosts (win_check s2))] (win_check s2) = Inr s'"
    by (auto simp add: update_game_def bind_r_Inr_iff Let_def)
  from pickup_pellets [OF s2] assms(2)
  have "pellets_remaining s2 = count_pellets (maze s2) \<and>
        pellets_remaining s2 \<le> pellets_remaining s" by simp
  moreover have "maze (win_check s2) = maze s2"
    "pellets_remaining (win_check s2) = pellets_remaining s2"
    by (simp_all add: win_check_def)
  ultimately show ?thesis using ghost_loop_frame [OF l] by simp
qed

lemma setup_level_with_pellets:
  "setup_level_with lvl idx hs = Inr s \<Longrightarrow> pellets_remaining s = count_pellets (maze s)"
  by (auto simp add: setup_level_with_def Let_def bind_r_Inr_iff)

lemma reachable_pellets:
  "reachable s \<Longrightarrow> pellets_remaining s = count_pellets (maze s)"
proof (induction rule: reachable.induct)
  case (start lvl idx hs s)
  then show ?case by (rule setup_level_with_pellets)
next
  case (tick s shuf s')
  then show ?case using update_game_pellets by blast
next
  case (intent s d)
  then show ?case by (simp add: set_intent_def)
qed

subsection \<open>The tick returns on rectangular mazes\<close>

lemma pacman_corners_blocked_returns:
  "rectangular m \<Longrightarrow> \<exists>b. pacman_corners_blocked m cs = Inr b"
proof (induction cs)
  case Nil
  then show ?case by auto
next
  case (Cons c cs)
  have "\<exists>b. pacman_corner_blocked m c = Inr b"
    using maze_get_rectangular [OF Cons.prems, of "cell_of (snd c)" "cell_of (fst c)"]
    by (auto simp add: pacman_corner_blocked_def Let_def)
  then obtain b where "pacman_corner_blocked m c = Inr b" ..
  with Cons show ?case by (cases b) auto
qed

lemma PacMan_update_returns:
  assumes "rectangular m"
  shows "\<exists>p'. PacMan_update m p = Inr p'"
proof -
  have c: "\<exists>b. pacman_check_collision q cx cy m = Inr b" for q cx cy
    by (simp add: pacman_check_collision_def pacman_corners_blocked_returns [OF assms])
  have "\<exists>p1. pacman_turn m p = Inr p1"
    using c [of p "px p + fst (dir_value (next_direction p)) * pspeed p"
        "py p + snd (dir_value (next_direction p)) * pspeed p"]
    by (auto simp add: pacman_turn_def Let_def)
  then obtain p1 where t: "pacman_turn m p = Inr p1" ..
  have "\<exists>p2. pacman_move m p1 = Inr p2"
    using c [of p1 "px p1 + fst (dir_value (pdirection p1)) * pspeed p1"
        "py p1 + snd (dir_value (pdirection p1)) * pspeed p1"]
    by (auto simp add: pacman_move_def Let_def)
  with t show ?thesis by (auto simp add: PacMan_update_def)
qed

lemma pickup_returns:
  assumes "rectangular (maze s)"
  shows "\<exists>s'. pickup s = Inr s' \<and> rectangular (maze s')"
  using maze_get_rectangular [OF assms, of "cell_of (py (pacman s))" "cell_of (px (pacman s))"]
    assms rectangular_maze_set [OF assms]
  by (auto simp add: pickup_def Let_def)

lemma ghost_loop_returns:
  "rectangular (maze s) \<Longrightarrow> \<exists>s'. ghost_loop shuf ks s = Inr s'"
proof (induction ks arbitrary: s)
  case Nil
  then show ?case by simp
next
  case (Cons k ks)
  from Ghost_update_returns [OF Cons.prems] obtain g
    where "Ghost_update (shuf k) (maze s) (pacman s) (ghosts s ! k) = Inr g" by blast
  then obtain s1 where s1: "ghost_step (shuf k) k s = Inr s1"
    by (simp add: ghost_step_def Let_def)
  with ghost_step_frame [OF s1] Cons.prems have "rectangular (maze s1)" by simp
  from Cons.IH [OF this] s1 show ?case by simp
qed

lemma update_game_returns:
  assumes "rectangular (maze s)"
  shows "\<exists>s'. update_game shuf s = Inr s'"
proof (cases "game_over s \<or> win s")
  case True
  then show ?thesis by (simp add: update_game_def)
next
  case False
  from PacMan_update_returns [OF assms] obtain p
    where p: "PacMan_update (maze s) (pacman s) = Inr p" by blast
  from pickup_returns [of "s\<lparr>pacman := p\<rparr>"] assms obtain s2
    where s2: "pickup (s\<lparr>pacman := p\<rparr>) = Inr s2" and r: "rectangular (maze s2)" by auto
  from r have "rectangular (maze (win_check s2))" by (simp add: win_check_def)
  from ghost_loop_returns [OF this] p s2 False show ?thesis
    by (simp add: update_game_def Let_def)
qed

subsection \<open>The first level\<close>

lemma len1: "length (level_maze LEVEL_1) = 21" "length (hd (level_maze LEVEL_1)) = 20"
  by (simp_all add: LEVEL_1_def)

lemma count1: "count_pellets (level_maze LEVEL_1) = 206"
  by (simp add: LEVEL_1_def count_pellets_def)

lemma spawn1: "find_spawn (level_maze LEVEL_1) = Inr (45, 315)"
  by (simp add: find_spawn_def len1 upt_conv_Cons) (simp add: LEVEL_1_def py_index_def CELL_SIZE_def)

lemma ghosts1: "make_ghosts LEVEL_1 [0..<nat (ghost_count LEVEL_1)] = 
   Inr [Ghost_init 270 270, Ghost_init 300 270]"
  by (simp add: LEVEL_1_def upt_conv_Cons colors_def py_index_def Ghost_init_def const_defs)

lemma setup1: "setup_level_with LEVEL_1 0 0 = Inr level1_start"
  by (simp add: setup_level_with_def spawn1 ghosts1 count1 level1_start_def Let_def)


lemma rectangular_level1: "rectangular (level_maze LEVEL_1)"
  by (simp add: rectangular_def LEVEL_1_def)

lemma in_grid1:
  "in_grid (level_maze LEVEL_1) r c \<longleftrightarrow> 0 \<le> r \<and> r < 21 \<and> 0 \<le> c \<and> c < 20"
  by (simp add: in_grid_def len1)

lemma tiles1:
  "maze_get (level_maze LEVEL_1) 10 1 = Inr 2"
  "maze_get (level_maze LEVEL_1) 9 9 = Inr 0"
  by (simp_all add: LEVEL_1_def maze_get_def py_index_def)

lemma setup_level_first: "setup_level 0 0 = Inr level1_start"
  by (simp add: setup_level_def LEVELS_def py_index_def setup1)

subsection \<open>Horizontal wrap\<close>

lemma edge_player_move:
  "bind_r (pacman_turn corridor edge_player) (pacman_move corridor) =
     Inr (edge_player\<lparr>px := SCREEN_WIDTH + 3 / 2\<rparr>)"
  by (simp add: corridor_def edge_player_def pacman_defs grid_defs const_defs Let_def)

lemma far_ghost_move:
  "bind_r (ghost_decide corridor edge_player (ghost_countdown far_ghost))
     (ghost_move [UP, DOWN, LEFT, RIGHT] corridor) = Inr (far_ghost\<lparr>gx := 93 / 2\<rparr>)"
  by (simp add: corridor_def edge_player_def far_ghost_def pacman_defs ghost_defs grid_defs
      const_defs Let_def)

text \<open>
  C1, as the claim states it, fails. In the open corridor the player at \<open>x = 599\<close> facing
  right commits the move to \<open>x = W + 3/2\<close>; the claim puts it at \<open>3/2\<close> at the end of
  the tick, the code puts it at \<open>0\<close>.
\<close>

theorem C1_wrap_counterexample:
  "bind_r (pacman_turn corridor edge_player) (pacman_move corridor) =
     Inr (edge_player\<lparr>px := SCREEN_WIDTH + 3 / 2\<rparr>) \<and>
   PacMan_update corridor edge_player = Inr (edge_player\<lparr>px := 0\<rparr>) \<and>
   px (edge_player\<lparr>px := 0\<rparr>) \<noteq> 3 / 2"
  by (simp add: corridor_def edge_player_def pacman_defs grid_defs const_defs Let_def)

text \<open>
  C1, amended: for the player and for an adversary, with \<open>p2\<close> and \<open>g2\<close> the actor after the
  tick's committed move, the tick ends with \<open>x = 0\<close> when the move left \<open>x\<close> above \<open>W\<close>, with
  \<open>x = W\<close> when it left \<open>x\<close> below \<open>0\<close>, and with \<open>x\<close> unchanged otherwise; after the
  normalization \<open>x\<close> lies in the closed interval from \<open>0\<close> to \<open>W\<close>, and \<open>y\<close> is never
  wrapped.
\<close>

theorem C1_wrap_to_opposite_edge:
  assumes "bind_r (pacman_turn m p) (pacman_move m) = Inr p2"
    and "bind_r (ghost_decide m q (ghost_countdown g)) (ghost_move sh m) = Inr g2"
  shows "\<exists>p' g'. PacMan_update m p = Inr p' \<and> Ghost_update sh m q g = Inr g' \<and>
           (SCREEN_WIDTH < px p2 \<longrightarrow> px p' = 0) \<and>
           (px p2 < 0 \<longrightarrow> px p' = SCREEN_WIDTH) \<and>
           (0 \<le> px p2 \<and> px p2 \<le> SCREEN_WIDTH \<longrightarrow> px p' = px p2) \<and>
           0 \<le> px p' \<and> px p' \<le> SCREEN_WIDTH \<and> py p' = py p2 \<and>
           (SCREEN_WIDTH < gx g2 \<longrightarrow> gx g' = 0) \<and>
           (gx g2 < 0 \<longrightarrow> gx g' = SCREEN_WIDTH) \<and>
           (0 \<le> gx g2 \<and> gx g2 \<le> SCREEN_WIDTH \<longrightarrow> gx g' = gx g2) \<and>
           0 \<le> gx g' \<and> gx g' \<le> SCREEN_WIDTH \<and> gy g' = gy g2"
proof -
  from assms(1) have P: "PacMan_update m p = Inr (pacman_wrap p2)"
    by (cases "pacman_turn m p") (simp_all add: PacMan_update_def)
  from assms(2) have G: "Ghost_update sh m q g = Inr (ghost_wrap g2)"
    by (cases "ghost_decide m q (ghost_countdown g)") (simp_all add: Ghost_update_def)
  show ?thesis
    unfolding P G by (simp add: pacman_wrap_def ghost_wrap_def wrap_x_def SCREEN_WIDTH_def)
qed

theorem C1_wrap_to_opposite_edge_witness:
  "\<exists>p' g'. PacMan_update corridor edge_player = Inr p' \<and>
     Ghost_update [UP, DOWN, LEFT, RIGHT] corridor edge_player far_ghost = Inr g' \<and>
     px p' = 0 \<and> py p' = 15 \<and> gx g' = 93 / 2 \<and> gy g' = 15"
  using C1_wrap_to_opposite_edge [OF edge_player_move far_ghost_move]
  by (auto simp add: edge_player_def far_ghost_def PacMan_init_def Ghost_init_def
      SCREEN_WIDTH_def)

subsection \<open>The fallback to a random direction\<close>

lemma choose_from_first:
  "choose_from m ds g = Inr g' \<Longrightarrow>
     (\<exists>xs d ys. ds = xs @ d # ys \<and> (\<forall>e\<in>set xs. lookahead_blocked m g e = Inr True) \<and>
         lookahead_blocked m g d = Inr False \<and> g' = g\<lparr>gdirection := d\<rparr>) \<or>
     ((\<forall>e\<in>set ds. lookahead_blocked m g e = Inr True) \<and> g' = g)"
proof (induction ds)
  case Nil
  then show ?case by simp
next
  case (Cons a ds)
  from Cons.prems obtain b where b: "lookahead_blocked m g a = Inr b"
    and r: "(if \<not> b then Inr (g\<lparr>gdirection := a\<rparr>) else choose_from m ds g) = Inr g'"
    by (auto simp add: bind_r_Inr_iff)
  show ?case
  proof (cases b)
    case False
    with b r have "a # ds = [] @ a # ds \<and> (\<forall>e\<in>set []. lookahead_blocked m g e = Inr True) \<and>
         lookahead_blocked m g a = Inr False \<and> g' = g\<lparr>gdirection := a\<rparr>" by auto
    then show ?thesis by blast
  next
    case True
    with r have "choose_from m ds g = Inr g'" by simp
    from Cons.IH [OF this] show ?thesis
    proof
      assume "\<exists>xs d ys. ds = xs @ d # ys \<and> (\<forall>e\<in>set xs. lookahead_blocked m g e = Inr True) \<and>
         lookahead_blocked m g d = Inr False \<and> g' = g\<lparr>gdirection := d\<rparr>"
      then obtain xs d ys where "ds = xs @ d # ys"
        "\<forall>e\<in>set xs. lookahead_blocked m g e = Inr True"
        "lookahead_blocked m g d = Inr False" "g' = g\<lparr>gdirection := d\<rparr>" by blast
      with b True have "a # ds = (a # xs) @ d # ys \<and>
         (\<forall>e\<in>set (a # xs). lookahead_blocked m g e = Inr True) \<and>
         lookahead_blocked m g d = Inr False \<and> g' = g\<lparr>gdirection := d\<rparr>" by simp
      then show ?thesis by blast
    next
      assume "(\<forall>e\<in>set ds. lookahead_blocked m g e = Inr True) \<and> g' = g"
      with b True show ?thesis by simp
    qed
  qed
qed

lemma ghost_countdown_position:
  "gx (ghost_countdown g) = gx g \<and> gy (ghost_countdown g) = gy g \<and>
   gdirection (ghost_countdown g) = gdirection g"
  by (simp add: ghost_countdown_def Let_def)

text \<open>
  C2, amended: in a tick in which the lookahead point of an adversary along the dominant
  axis is blocked (\<open>g1\<close> is the adversary after the countdown block), the adversary keeps
  its previous facing for the movement of this tick. If the single step in that facing
  is free, it moves by that step. If the step is blocked, it does not move in this tick,
  and \<^verbatim>\<open>choose_random_direction\<close> sets its facing for the ticks to come: to the first
  direction of the shuffled enumeration whose lookahead point is free, or leaves it
  unchanged when no direction qualifies.
\<close>

theorem C2_blocked_lookahead_keeps_facing:
  assumes "Ghost_update sh m p g = Inr g'"
    and "g1 = ghost_countdown g"
    and "lookahead_blocked m g1 (if frightened g1 then flee_dir p g1 else chase_dir p g1) = Inr True"
    and "nx = gx g + fst (dir_value (gdirection g)) * gspeed g1"
    and "ny = gy g + snd (dir_value (gdirection g)) * gspeed g1"
  shows "\<exists>b. ghost_check_collision nx ny m = Inr b \<and>
           (\<not> b \<longrightarrow> gdirection g' = gdirection g \<and> gx g' = wrap_x nx \<and> gy g' = ny) \<and>
           (b \<longrightarrow> gx g' = wrap_x (gx g) \<and> gy g' = gy g \<and>
              ((\<exists>xs d ys. sh = xs @ d # ys \<and>
                   (\<forall>e\<in>set xs. lookahead_blocked m g1 e = Inr True) \<and>
                   lookahead_blocked m g1 d = Inr False \<and> gdirection g' = d) \<or>
               ((\<forall>e\<in>set sh. lookahead_blocked m g1 e = Inr True) \<and>
                   gdirection g' = gdirection g)))"
proof -
  from ghost_countdown_position [of g] assms(2)
  have pos: "gx g1 = gx g" "gy g1 = gy g" "gdirection g1 = gdirection g" by simp_all
  from assms(3) have dec: "ghost_decide m p g1 = Inr g1"
    by (simp add: ghost_decide_def chase_pacman_def flee_from_pacman_def Let_def split: if_splits)
  with assms(1,2) obtain g2 where mv: "ghost_move sh m g1 = Inr g2" and w: "g' = ghost_wrap g2"
    by (auto simp add: Ghost_update_def bind_r_Inr_iff)
  from mv pos assms(4,5)
  have "bind_r (ghost_check_collision nx ny m)
          (\<lambda>b. if \<not> b then Inr (g1\<lparr>gx := nx, gy := ny\<rparr>) else choose_from m sh g1) = Inr g2"
    unfolding ghost_move_def Let_def choose_random_direction_def
    by (simp cong del: if_weak_cong)
  then obtain b where b: "ghost_check_collision nx ny m = Inr b"
    and r: "(if \<not> b then Inr (g1\<lparr>gx := nx, gy := ny\<rparr>) else choose_from m sh g1) = Inr g2"
    unfolding bind_r_Inr_iff by blast
  show ?thesis
  proof (cases b)
    case False
    with r have "g2 = g1\<lparr>gx := nx, gy := ny\<rparr>" by simp
    with w pos b False show ?thesis by (auto simp add: ghost_wrap_def)
  next
    case True
    with r have c: "choose_from m sh g1 = Inr g2" by simp
    from choose_from_same_mode [OF c] pos w
    have xy: "gx g' = wrap_x (gx g)" "gy g' = gy g" by (simp_all add: ghost_wrap_def)
    from choose_from_first [OF c]
    consider (found) xs d ys where "sh = xs @ d # ys"
        "\<forall>e\<in>set xs. lookahead_blocked m g1 e = Inr True"
        "lookahead_blocked m g1 d = Inr False" "g2 = g1\<lparr>gdirection := d\<rparr>"
      | (none) "\<forall>e\<in>set sh. lookahead_blocked m g1 e = Inr True" "g2 = g1"
      by blast
    then have "(\<exists>xs d ys. sh = xs @ d # ys \<and>
                   (\<forall>e\<in>set xs. lookahead_blocked m g1 e = Inr True) \<and>
                   lookahead_blocked m g1 d = Inr False \<and> gdirection g' = d) \<or>
               ((\<forall>e\<in>set sh. lookahead_blocked m g1 e = Inr True) \<and>
                   gdirection g' = gdirection g)"
    proof cases
      case found
      from found(4) w have "gdirection g' = d" by (simp add: ghost_wrap_def)
      with found(1,2,3) show ?thesis by blast
    next
      case none
      from none(2) w pos have "gdirection g' = gdirection g" by (simp add: ghost_wrap_def)
      with none(1) show ?thesis by blast
    qed
    with b True xy show ?thesis by auto
  qed
qed

lemma dead_end_tiles:
  "in_grid dead_end r c \<longleftrightarrow> 0 \<le> r \<and> r < 3 \<and> 0 \<le> c \<and> c < 3"
  "maze_get dead_end 0 1 = Inr 1" "maze_get dead_end 1 1 = Inr 0" "maze_get dead_end 1 2 = Inr 1"
  by (simp_all add: dead_end_def in_grid_def maze_get_def py_index_def)

lemma cornered_update:
  "Ghost_update [UP, DOWN, LEFT, RIGHT] dead_end (PacMan_init 55 30)
     ((Ghost_init 55 (61 / 2))\<lparr>gdirection := UP\<rparr>) =
   Inr ((Ghost_init 55 (61 / 2))\<lparr>gdirection := DOWN\<rparr>)"
  by (simp add: ghost_defs PacMan_init_def cell_of_def const_defs dead_end_tiles Let_def
      wrap_x_def)

theorem C2_blocked_lookahead_keeps_facing_witness:
  "\<exists>g'. Ghost_update [UP, DOWN, LEFT, RIGHT] dead_end (PacMan_init 55 30)
           ((Ghost_init 55 (61 / 2))\<lparr>gdirection := UP\<rparr>) = Inr g' \<and>
        gx g' = 55 \<and> gy g' = 61 / 2"
proof -
  let ?g = "(Ghost_init 55 (61 / 2))\<lparr>gdirection := UP\<rparr>"
  let ?p = "PacMan_init 55 30"
  have g1: "?g = ghost_countdown ?g"
    by (simp add: ghost_countdown_def Ghost_init_def)
  have blocked: "lookahead_blocked dead_end ?g
      (if frightened ?g then flee_dir ?p ?g else chase_dir ?p ?g) = Inr True"
    by (simp add: ghost_defs PacMan_init_def cell_of_def const_defs dead_end_tiles Let_def)
  have step: "ghost_check_collision 55 29 dead_end = Inr True"
    by (simp add: ghost_defs cell_of_def const_defs dead_end_tiles Let_def)
  have nx: "55 = gx ?g + fst (dir_value (gdirection ?g)) * gspeed ?g"
    and ny: "29 = gy ?g + snd (dir_value (gdirection ?g)) * gspeed ?g"
    by (simp_all add: Ghost_init_def GHOST_SPEED_def)
  from C2_blocked_lookahead_keeps_facing [OF cornered_update g1 blocked nx ny] step
  have "gx ((Ghost_init 55 (61 / 2))\<lparr>gdirection := DOWN\<rparr>) = wrap_x (gx ?g) \<and>
        gy ((Ghost_init 55 (61 / 2))\<lparr>gdirection := DOWN\<rparr>) = gy ?g"
    by auto
  then show ?thesis
    using cornered_update by (simp add: Ghost_init_def wrap_x_def SCREEN_WIDTH_def)
qed

text \<open>
  C2, as the claim states it, fails. In the dead end the adversary at \<open>(55, 35)\<close> faces
  right and the player is straight above it. The lookahead along the dominant axis (up)
  is blocked, yet \<^verbatim>\<open>choose_random_direction\<close> is not consulted: with this shuffle it
  would have chosen down, and with no shuffle right, whose lookahead is blocked too. The
  adversary keeps facing right and moves one step to the right.
\<close>

theorem C2_fallback_counterexample:
  "lookahead_blocked dead_end (ghost_countdown (Ghost_init 55 35))
     (chase_dir (PacMan_init 55 31) (ghost_countdown (Ghost_init 55 35))) = Inr True \<and>
   lookahead_blocked dead_end (ghost_countdown (Ghost_init 55 35)) RIGHT = Inr True \<and>
   choose_random_direction [UP, DOWN, LEFT, RIGHT] dead_end (ghost_countdown (Ghost_init 55 35)) =
     Inr ((Ghost_init 55 35)\<lparr>gdirection := DOWN\<rparr>) \<and>
   Ghost_update [UP, DOWN, LEFT, RIGHT] dead_end (PacMan_init 55 31) (Ghost_init 55 35) =
     Inr ((Ghost_init 55 35)\<lparr>gx := 113 / 2\<rparr>)"
  by (simp add: ghost_defs PacMan_init_def cell_of_def const_defs dead_end_tiles Let_def
      wrap_x_def)

subsection \<open>The speed of a Pursuing adversary\<close>

lemma trap_tiles:
  "in_grid (level_maze trap_level) r c \<longleftrightarrow> 0 \<le> r \<and> r < 10 \<and> 0 \<le> c \<and> c < 10"
  "maze_get (level_maze trap_level) 8 8 = Inr 3"
  "maze_get (level_maze trap_level) 9 9 = Inr 0"
  by (simp_all add: trap_level_def in_grid_def maze_get_def py_index_def)

lemma trap_setup: "setup_level_with trap_level 0 0 = Inr trap_start"
proof -
  have "find_spawn (level_maze trap_level) = Inr (255, 255)"
    by (simp add: find_spawn_def trap_level_def upt_conv_Cons py_index_def CELL_SIZE_def)
  moreover have "make_ghosts trap_level [0..<nat (ghost_count trap_level)] =
      Inr [Ghost_init 270 270]"
    by (simp add: trap_level_def upt_conv_Cons colors_def py_index_def Ghost_init_def
        const_defs)
  moreover have "count_pellets (level_maze trap_level) = 2"
    by (simp add: trap_level_def count_pellets_def)
  ultimately show ?thesis
    by (simp add: setup_level_with_def trap_start_def Let_def)
qed

lemma trap_player:
  "PacMan_update (maze trap_start) (pacman trap_start) =
     Inr ((PacMan_init 255 255)\<lparr>px := 515 / 2\<rparr>)"
  by (simp add: trap_start_def pacman_defs cell_of_def const_defs trap_tiles Let_def)

lemma trap_pickup:
  "pickup (trap_start\<lparr>pacman := (PacMan_init 255 255)\<lparr>px := 515 / 2\<rparr>\<rparr>) =
     Inr (trap_start\<lparr>pacman := (PacMan_init 255 255)\<lparr>px := 515 / 2\<rparr>,
            maze := maze_set (level_maze trap_level) 8 8 0, score := 50,
            pellets_remaining := 1,
            ghosts := [set_frightened 300 (Ghost_init 270 270)]\<rparr>)"
  by (simp add: trap_start_def pickup_def PacMan_init_def cell_of_def CELL_SIZE_def
      trap_tiles Let_def)

lemma trap_tiles_after:
  "maze_get (maze_set (level_maze trap_level) 8 8 0) 9 9 = Inr 0"
  using maze_get_maze_set_other [of 8 8 9 9 "level_maze trap_level" 0] trap_tiles(3)
  by simp

lemma trap_tick:
  "update_game (\<lambda>i. [UP, DOWN, LEFT, RIGHT]) trap_start =
     Inr (trap_start\<lparr>pacman := (PacMan_init 255 255)\<lparr>px := 515 / 2\<rparr>,
            maze := maze_set (level_maze trap_level) 8 8 0, score := 250,
            pellets_remaining := 1,
            ghosts := [(Ghost_init 270 270)\<lparr>gdirection := DOWN, gspeed := 1,
                         frightened_timer := 299\<rparr>]\<rparr>)"
  by (simp add: update_game_def trap_player trap_pickup)
    (simp add: trap_start_def win_check_def ghost_step_def lose_life_def capture_def near_sq
      ghost_defs PacMan_init_def cell_of_def const_defs
      trap_tiles trap_tiles_after Let_def wrap_x_def upt_conv_Cons)

lemma chase_tiles:
  "maze_get (level_maze LEVEL_1) 1 1 = Inr 2"
  "maze_get (level_maze LEVEL_1) 2 1 = Inr 3"
  "maze_get (level_maze LEVEL_1) 9 10 = Inr 0"
  by (simp_all add: LEVEL_1_def maze_get_def py_index_def)

lemma chase_tiles_after:
  "maze_get (maze_set (level_maze LEVEL_1) 2 1 0) 2 1 = Inr 0"
  "maze_get (maze_set (level_maze LEVEL_1) 2 1 0) 9 10 = Inr 0"
  using maze_get_maze_set_same [OF chase_tiles(2), of 0]
    maze_get_maze_set_other [of 2 1 9 10 "level_maze LEVEL_1" 0] chase_tiles(3)
  by simp_all

lemma chase_player:
  "PacMan_update (maze chase_session) (pacman chase_session) =
     Inr ((pacman chase_session)\<lparr>py := 123 / 2\<rparr>)"
  by (simp add: chase_session_def pacman_defs cell_of_def const_defs in_grid1 chase_tiles
      Let_def)

lemma chase_pickup:
  "pickup (chase_session\<lparr>pacman := (pacman chase_session)\<lparr>py := 123 / 2\<rparr>\<rparr>) =
     Inr (chase_session\<lparr>pacman := (pacman chase_session)\<lparr>py := 123 / 2\<rparr>,
            maze := maze_set (level_maze LEVEL_1) 2 1 0, score := 50,
            pellets_remaining := 205,
            ghosts := map (set_frightened 300) (ghosts chase_session)\<rparr>)"
  by (simp add: chase_session_def pickup_def PacMan_init_def cell_of_def CELL_SIZE_def
      in_grid1 chase_tiles Let_def)

lemma chase_tick:
  "update_game (\<lambda>i. [UP, DOWN, LEFT, RIGHT]) chase_session =
     Inr (chase_session\<lparr>pacman := (pacman chase_session)\<lparr>py := 123 / 2\<rparr>,
            maze := maze_set (level_maze LEVEL_1) 2 1 0, score := 250,
            pellets_remaining := 205,
            ghosts := [(Ghost_init 270 270)\<lparr>gdirection := DOWN, gspeed := 1,
                         frightened_timer := 299\<rparr>,
                       (Ghost_init 300 270)\<lparr>gx := 301, gspeed := 1, frightened := True,
                         frightened_timer := 299\<rparr>]\<rparr>)"
  by (simp add: update_game_def chase_player chase_pickup)
    (simp add: chase_session_def win_check_def ghost_step_def lose_life_def capture_def near_sq
      ghost_defs PacMan_init_def cell_of_def const_defs
      in_grid1 chase_tiles_after Let_def wrap_x_def upt_conv_Cons)

text \<open>
  C3 does not hold of the code. \<^verbatim>\<open>Ghost.reset_position\<close> clears the Evading mode and
  leaves the speed at the Evading speed, so a captured adversary is Pursuing at speed 1;
  and the countdown block restores \<^verbatim>\<open>GHOST_SPEED\<close> without the level's multiplier. The
  first tick of the session built from \<open>trap_level\<close>, and a tick of the first level from
  \<open>chase_session\<close> (all adversaries Pursuing at the base speed 3/2), both end with a
  Pursuing adversary at speed 1; an adversary of the second level, base speed 39/20,
  whose countdown runs out is Pursuing at speed 3/2.
\<close>

theorem C3_speed_not_restored:
  "setup_level_with trap_level 0 0 = Inr trap_start \<and>
   bind_r (update_game (\<lambda>i. [UP, DOWN, LEFT, RIGHT]) trap_start)
     (\<lambda>s. Inr (map (\<lambda>g. (frightened g, gspeed g)) (ghosts s))) = Inr [(False, 1)] \<and>
   GHOST_SPEED * speed_multiplier trap_level = 3 / 2 \<and>
   map (\<lambda>g. (frightened g, gspeed g)) (ghosts chase_session) = [(False, 3 / 2), (False, 3 / 2)] \<and>
   bind_r (update_game (\<lambda>i. [UP, DOWN, LEFT, RIGHT]) chase_session)
     (\<lambda>s. Inr (map (\<lambda>g. (frightened g, gspeed g)) (ghosts s))) = Inr [(False, 1), (True, 1)] \<and>
   GHOST_SPEED * speed_multiplier LEVEL_1 = 3 / 2 \<and>
   GHOST_SPEED * speed_multiplier LEVEL_2 = 39 / 20 \<and>
   (let g = ghost_countdown (set_frightened 1
              ((Ghost_init 270 270)\<lparr>gspeed := GHOST_SPEED * speed_multiplier LEVEL_2\<rparr>))
    in (frightened g, gspeed g)) = (False, 3 / 2)"
  by (simp add: trap_setup trap_tick chase_tick)
    (simp add: chase_session_def trap_level_def LEVEL_1_def LEVEL_2_def Ghost_init_def
      ghost_countdown_def set_frightened_def const_defs Let_def)

subsection \<open>The Evading countdown\<close>






subsection \<open>The tick of a power pickup\<close>

lemma ghost_step_evading:
  assumes "ghost_step sh i s = Inr s1" and "i < length (ghosts s)"
    and "frightened (ghosts s ! i)" and "frightened_timer (ghosts s ! i) = 300"
  shows "\<exists>g1. ghosts s1 = (ghosts s)[i := g1] \<and> evading_or_captured g1 \<and>
           score s1 = score s + (if frightened g1 then 0 else 200) \<and>
           lives s1 = lives s \<and> pacman s1 = pacman s"
proof -
  from assms(1) obtain g where u: "Ghost_update sh (maze s) (pacman s) (ghosts s ! i) = Inr g"
    and s1: "s1 = (if near (pacman s) g
                   then (if frightened g then capture i (s\<lparr>ghosts := (ghosts s)[i := g]\<rparr>)
                         else lose_life (s\<lparr>ghosts := (ghosts s)[i := g]\<rparr>))
                   else s\<lparr>ghosts := (ghosts s)[i := g]\<rparr>)"
    by (auto simp add: ghost_step_def bind_r_Inr_iff Let_def)
  from Ghost_update_same_mode [OF u] assms(3,4)
  have g: "frightened g" "frightened_timer g = 299"
    by (simp_all add: same_mode_def ghost_countdown_def Let_def)
  show ?thesis
  proof (cases "near (pacman s) g")
    case True
    with s1 g assms(2) have "ghosts s1 = (ghosts s)[i := ghost_reset_position g]"
      "score s1 = score s + 200" "lives s1 = lives s" "pacman s1 = pacman s"
      by (simp_all add: capture_def Let_def)
    moreover have "evading_or_captured (ghost_reset_position g)"
      "\<not> frightened (ghost_reset_position g)"
      by (simp_all add: evading_or_captured_def at_spawn_def ghost_reset_position_def)
    ultimately show ?thesis by auto
  next
    case False
    with s1 g have "ghosts s1 = (ghosts s)[i := g]"
      "score s1 = score s" "lives s1 = lives s" "pacman s1 = pacman s"
      by (simp_all add: Let_def)
    moreover from g have "evading_or_captured g" by (simp add: evading_or_captured_def)
    ultimately show ?thesis using g by auto
  qed
qed

lemma ghost_loop_evading:
  assumes "ghost_loop shuf ks s = Inr s'" and "distinct ks"
    and "\<forall>k\<in>set ks. k < length (ghosts s) \<and> frightened (ghosts s ! k) \<and>
           frightened_timer (ghosts s ! k) = 300"
  shows "lives s' = lives s \<and> pacman s' = pacman s \<and>
         (\<forall>k\<in>set ks. evading_or_captured (ghosts s' ! k)) \<and>
         (\<forall>j. j \<notin> set ks \<longrightarrow> ghosts s' ! j = ghosts s ! j) \<and>
         score s' = score s + 200 * int (length (filter (\<lambda>k. \<not> frightened (ghosts s' ! k)) ks))"
  using assms
proof (induction ks arbitrary: s)
  case Nil
  then show ?case by simp
next
  case (Cons k ks)
  from Cons.prems(1) obtain s1 where a: "ghost_step (shuf k) k s = Inr s1"
    and b: "ghost_loop shuf ks s1 = Inr s'"
    by (auto simp add: bind_r_Inr_iff)
  from Cons.prems(3) have k: "k < length (ghosts s)" "frightened (ghosts s ! k)"
    "frightened_timer (ghosts s ! k) = 300" by simp_all
  from ghost_step_evading [OF a k] obtain g1
    where g1: "ghosts s1 = (ghosts s)[k := g1]" "evading_or_captured g1"
      "score s1 = score s + (if frightened g1 then 0 else 200)"
      "lives s1 = lives s" "pacman s1 = pacman s" by blast
  from Cons.prems(2) have d: "distinct ks" "k \<notin> set ks" by simp_all
  have pre: "\<forall>j\<in>set ks. j < length (ghosts s1) \<and> frightened (ghosts s1 ! j) \<and>
           frightened_timer (ghosts s1 ! j) = 300"
  proof
    fix j assume j: "j \<in> set ks"
    with d(2) have "j \<noteq> k" by auto
    with Cons.prems(3) j g1(1) show "j < length (ghosts s1) \<and> frightened (ghosts s1 ! j) \<and>
           frightened_timer (ghosts s1 ! j) = 300" by simp
  qed
  from Cons.IH [OF b d(1) pre]
  have ih: "lives s' = lives s1" "pacman s' = pacman s1"
    "\<forall>j\<in>set ks. evading_or_captured (ghosts s' ! j)"
    "\<forall>j. j \<notin> set ks \<longrightarrow> ghosts s' ! j = ghosts s1 ! j"
    "score s' = score s1 + 200 * int (length (filter (\<lambda>k. \<not> frightened (ghosts s' ! k)) ks))"
    by simp_all
  from ih(4) d(2) g1(1) k(1) have at_k: "ghosts s' ! k = g1" by simp
  have others: "\<forall>j. j \<notin> set (k # ks) \<longrightarrow> ghosts s' ! j = ghosts s ! j"
    using ih(4) g1(1) by simp
  from ih g1 at_k others show ?case by simp
qed

lemma filter_indices:
  "length (filter (\<lambda>k. P (xs ! k)) [0..<length xs]) = length (filter P xs)"
proof -
  have "filter P xs = filter P (map (\<lambda>k. xs ! k) [0..<length xs])"
    by (simp add: map_nth)
  also have "\<dots> = map (\<lambda>k. xs ! k) (filter (\<lambda>k. P (xs ! k)) [0..<length xs])"
    by (simp add: filter_map comp_def)
  finally show ?thesis by simp
qed

lemma pickup_power:
  assumes "in_grid (maze s) (cell_of (py (pacman s))) (cell_of (px (pacman s)))"
    and "maze_get (maze s) (cell_of (py (pacman s))) (cell_of (px (pacman s))) = Inr 3"
  shows "pickup s = Inr (s\<lparr>maze := maze_set (maze s) (cell_of (py (pacman s))) (cell_of (px (pacman s))) 0,
                           score := score s + 50,
                           pellets_remaining := pellets_remaining s - 1,
                           ghosts := map (set_frightened 300) (ghosts s)\<rparr>)"
  using assms by (simp add: pickup_def Let_def)

text \<open>
  C5, amended: in a tick of a session in progress in which the tile under the player,
  after the player's move, is a power collectible, the pickup step adds exactly 50 to
  the score, empties that tile, takes one from the remaining-collectible count and puts
  every adversary in Evading mode with the countdown at 300. The adversaries are updated
  after the pickup in the same tick, so the tick ends with: the tile empty, the count one
  less, the lives unchanged, every adversary either Evading with the countdown at 299 or
  captured in this tick (Pursuing, on its spawn coordinate), and the score higher by 50
  plus 200 for each captured adversary.
\<close>

theorem C5_power_pickup:
  assumes "\<not> game_over s" and "\<not> win s"
    and "PacMan_update (maze s) (pacman s) = Inr p"
    and "in_grid (maze s) (cell_of (py p)) (cell_of (px p))"
    and "maze_get (maze s) (cell_of (py p)) (cell_of (px p)) = Inr 3"
    and "update_game shuf s = Inr s'"
  shows "\<exists>s2. pickup (s\<lparr>pacman := p\<rparr>) = Inr s2 \<and>
           score s2 = score s + 50 \<and>
           maze_get (maze s2) (cell_of (py p)) (cell_of (px p)) = Inr 0 \<and>
           pellets_remaining s2 = pellets_remaining s - 1 \<and>
           (\<forall>g\<in>set (ghosts s2). frightened g \<and> frightened_timer g = 300) \<and>
           maze_get (maze s') (cell_of (py p)) (cell_of (px p)) = Inr 0 \<and>
           pellets_remaining s' = pellets_remaining s - 1 \<and>
           lives s' = lives s \<and>
           (\<forall>g\<in>set (ghosts s'). evading_or_captured g) \<and>
           score s' = score s + 50 +
             200 * int (length (filter (\<lambda>g. \<not> frightened g) (ghosts s')))"
proof -
  let ?my = "cell_of (py p)" and ?mx = "cell_of (px p)"
  define s2 where "s2 = s\<lparr>pacman := p, maze := maze_set (maze s) ?my ?mx 0,
     score := score s + 50, pellets_remaining := pellets_remaining s - 1,
     ghosts := map (set_frightened 300) (ghosts s)\<rparr>"
  have pk: "pickup (s\<lparr>pacman := p\<rparr>) = Inr s2"
    using pickup_power [of "s\<lparr>pacman := p\<rparr>"] assms(4,5) by (simp add: s2_def)
  define s3 where "s3 = win_check s2"
  define n where "n = length (ghosts s3)"
  from assms(1,2,3,6) pk have loop: "ghost_loop shuf [0..<n] s3 = Inr s'"
    by (simp add: update_game_def Let_def s3_def n_def)
  have s3: "maze s3 = maze s2" "pellets_remaining s3 = pellets_remaining s2"
    "ghosts s3 = ghosts s2" "score s3 = score s2" "lives s3 = lives s2"
    by (simp_all add: s3_def win_check_def)
  have fr: "\<forall>g\<in>set (ghosts s2). frightened g \<and> frightened_timer g = 300"
    by (simp add: s2_def set_frightened_def)
  then have pre: "\<forall>k\<in>set [0..<n]. k < length (ghosts s3) \<and> frightened (ghosts s3 ! k) \<and>
           frightened_timer (ghosts s3 ! k) = 300"
    by (simp add: n_def s3)
  from ghost_loop_evading [OF loop _ pre]
  have post: "lives s' = lives s3"
    "\<forall>k\<in>set [0..<n]. evading_or_captured (ghosts s' ! k)"
    "score s' = score s3 + 200 * int (length (filter (\<lambda>k. \<not> frightened (ghosts s' ! k)) [0..<n]))"
    by simp_all
  from ghost_loop_frame [OF loop]
  have fr': "maze s' = maze s3" "pellets_remaining s' = pellets_remaining s3"
    "length (ghosts s') = n" by (simp_all add: n_def)
  from in_grid_nonneg [OF assms(4)] have nn: "0 \<le> ?my" "0 \<le> ?mx" by simp_all
  have tile: "maze_get (maze s2) ?my ?mx = Inr 0"
    using maze_get_maze_set_same [OF assms(5) nn] by (simp add: s2_def)
  have all: "\<forall>g\<in>set (ghosts s'). evading_or_captured g"
    using post(2) fr'(3) by (auto simp add: in_set_conv_nth)
  have sc: "score s' = score s + 50 + 200 * int (length (filter (\<lambda>g. \<not> frightened g) (ghosts s')))"
    using post(3) filter_indices [of "\<lambda>g. \<not> frightened g" "ghosts s'"] fr'(3) s3(4)
    by (simp add: s2_def)
  from pk tile fr all sc post(1) fr' s3 show ?thesis
    by (auto simp add: s2_def)
qed


lemma power_player_move:
  "PacMan_update (maze power_session) (pacman power_session) =
     Inr ((PacMan_init 58 45)\<lparr>px := 121 / 2\<rparr>)"
  by (simp add: power_session_def power_corridor_def pacman_defs grid_defs const_defs Let_def)

lemma power_tick:
  "update_game (\<lambda>i. [UP, DOWN, LEFT, RIGHT]) power_session =
     Inr (power_session\<lparr>maze := maze_set power_corridor 1 2 0,
            pacman := (PacMan_init 58 45)\<lparr>px := 121 / 2\<rparr>,
            ghosts := [(Ghost_init 135 45)\<lparr>gx := 136, gspeed := 1, frightened := True,
                         frightened_timer := 299\<rparr>],
            score := 50, pellets_remaining := 1\<rparr>)"
  by (simp add: power_session_def power_corridor_def game_defs pacman_defs ghost_defs
        grid_defs const_defs Let_def)

theorem C5_power_pickup_witness:
  "\<exists>s'. update_game (\<lambda>i. [UP, DOWN, LEFT, RIGHT]) power_session = Inr s' \<and>
      maze_get (maze s') 1 2 = Inr 0 \<and> pellets_remaining s' = 1 \<and> lives s' = 3 \<and>
      score s' = 50 + 200 * int (length (filter (\<lambda>g. \<not> frightened g) (ghosts s')))"
proof -
  let ?p = "(PacMan_init 58 45)\<lparr>px := 121 / 2\<rparr>"
  have c: "cell_of (py ?p) = 1" "cell_of (px ?p) = 2"
    by (simp_all add: PacMan_init_def cell_of_def CELL_SIZE_def)
  have a: "\<not> game_over power_session" "\<not> win power_session"
    by (simp_all add: power_session_def)
  have g: "in_grid (maze power_session) (cell_of (py ?p)) (cell_of (px ?p))"
    unfolding c by (simp add: power_session_def power_corridor_def in_grid_def)
  have t: "maze_get (maze power_session) (cell_of (py ?p)) (cell_of (px ?p)) = Inr 3"
    unfolding c by (simp add: power_session_def power_corridor_def maze_get_def py_index_def)
  let ?s' = "power_session\<lparr>maze := maze_set power_corridor 1 2 0,
            pacman := (PacMan_init 58 45)\<lparr>px := 121 / 2\<rparr>,
            ghosts := [(Ghost_init 135 45)\<lparr>gx := 136, gspeed := 1, frightened := True,
                         frightened_timer := 299\<rparr>],
            score := 50, pellets_remaining := 1\<rparr>"
  from C5_power_pickup [OF a power_player_move g t power_tick]
  have "maze_get (maze ?s') (cell_of (py ?p)) (cell_of (px ?p)) = Inr 0 \<and>
        pellets_remaining ?s' = pellets_remaining power_session - 1 \<and>
        lives ?s' = lives power_session \<and>
        score ?s' = score power_session + 50 +
          200 * int (length (filter (\<lambda>g. \<not> frightened g) (ghosts ?s')))"
    by blast
  then have "maze_get (maze ?s') 1 2 = Inr 0 \<and> pellets_remaining ?s' = 1 \<and> lives ?s' = 3 \<and>
        score ?s' = 50 + 200 * int (length (filter (\<lambda>g. \<not> frightened g) (ghosts ?s')))"
    unfolding c by (simp add: power_session_def)
  with power_tick show ?thesis by blast
qed

text \<open>
  C5, as the claim states it, fails: in \<open>power_session\<close> the player steps onto the power
  collectible, and the tick ends with the adversary's countdown at 299, not at the full
  300.
\<close>

theorem C5_countdown_counterexample:
  "bind_r (PacMan_update (maze power_session) (pacman power_session))
     (\<lambda>p. maze_get (maze power_session) (cell_of (py p)) (cell_of (px p))) = Inr 3 \<and>
   bind_r (update_game (\<lambda>i. [UP, DOWN, LEFT, RIGHT]) power_session)
     (\<lambda>s. Inr (map (\<lambda>g. (frightened g, frightened_timer g)) (ghosts s))) = Inr [(True, 299)]"
  by (simp add: power_tick power_player_move)
    (simp add: power_session_def power_corridor_def PacMan_init_def Ghost_init_def
      cell_of_def CELL_SIZE_def maze_get_def py_index_def)

subsection \<open>The loss of a life\<close>

lemma ghost_loop_append:
  "ghost_loop shuf (xs @ ys) s = bind_r (ghost_loop shuf xs s) (ghost_loop shuf ys)"
proof (induction xs arbitrary: s)
  case Nil
  then show ?case by simp
next
  case (Cons k xs)
  then show ?case by (cases "ghost_step (shuf k) k s") simp_all
qed

lemma at_spawn_reset [simp]: "at_spawn (ghost_reset_position g)"
  by (simp add: at_spawn_def ghost_reset_position_def)

lemma player_at_spawn_reset [simp]: "player_at_spawn (pacman_reset_position p)"
  by (simp add: player_at_spawn_def pacman_reset_position_def)

lemma lose_life_last:
  "lives s \<le> 1 \<Longrightarrow>
     lives (lose_life s) = lives s - 1 \<and> maze (lose_life s) = maze s \<and>
     game_over (lose_life s) \<and> pacman (lose_life s) = pacman s \<and>
     ghosts (lose_life s) = ghosts s"
  by (simp add: lose_life_def Let_def)

lemma lose_life_more:
  "1 < lives s \<Longrightarrow>
     lives (lose_life s) = lives s - 1 \<and> maze (lose_life s) = maze s \<and>
     game_over (lose_life s) = game_over s \<and>
     player_at_spawn (pacman (lose_life s)) \<and>
     (\<forall>h\<in>set (ghosts (lose_life s)). at_spawn h)"
  by (simp add: lose_life_def Let_def)

lemma ghost_step_keeps_spawn:
  assumes "ghost_step sh k s = Inr s1"
  shows "(player_at_spawn (pacman s) \<longrightarrow> player_at_spawn (pacman s1)) \<and>
         (\<forall>j. j \<noteq> k \<and> j < length (ghosts s) \<and> at_spawn (ghosts s ! j) \<longrightarrow>
              at_spawn (ghosts s1 ! j))"
  using assms
  by (auto simp add: ghost_step_def bind_r_Inr_iff Let_def capture_def lose_life_def
      split: if_splits)

lemma ghost_loop_keeps_spawn:
  assumes "ghost_loop shuf ks s = Inr s'" and "\<forall>k\<in>set ks. i < k"
  shows "(player_at_spawn (pacman s) \<longrightarrow> player_at_spawn (pacman s')) \<and>
         (\<forall>j\<le>i. j < length (ghosts s) \<and> at_spawn (ghosts s ! j) \<longrightarrow>
              at_spawn (ghosts s' ! j))"
  using assms
proof (induction ks arbitrary: s)
  case Nil
  then show ?case by simp
next
  case (Cons k ks)
  from Cons.prems(1) obtain s1 where a: "ghost_step (shuf k) k s = Inr s1"
    and b: "ghost_loop shuf ks s1 = Inr s'"
    by (auto simp add: bind_r_Inr_iff)
  from Cons.prems(2) have k: "i < k" and ks: "\<forall>k\<in>set ks. i < k" by simp_all
  from ghost_step_frame [OF a] have len: "length (ghosts s1) = length (ghosts s)" by simp
  from ghost_step_keeps_spawn [OF a] k
  have s1: "player_at_spawn (pacman s) \<longrightarrow> player_at_spawn (pacman s1)"
    "\<forall>j\<le>i. j < length (ghosts s) \<and> at_spawn (ghosts s ! j) \<longrightarrow> at_spawn (ghosts s1 ! j)"
    by auto
  from Cons.IH [OF b ks] s1 len show ?case by auto
qed

text \<open>
  C6, amended: let \<open>sa\<close> be the session when the loop of a tick reaches adversary \<open>i\<close>, and
  let the update of that adversary leave it in Pursuing mode within the proximity
  threshold of the player. Then this collision takes exactly one life and leaves the
  maze as it was; the maze is still the same at the end of the tick. If no life remains,
  the outcome is Lost, and stays so to the end of the tick. If a life remains, the
  player and all adversaries are on their spawn coordinates right after the collision,
  and at the end of the tick the player and the adversaries up to \<open>i\<close> in list order still
  are (the adversaries after \<open>i\<close> are updated after the reset, in the same tick).
\<close>

theorem C6_life_lost:
  assumes "\<not> game_over s" and "\<not> win s"
    and "PacMan_update (maze s) (pacman s) = Inr p"
    and "pickup (s\<lparr>pacman := p\<rparr>) = Inr s2"
    and "ghost_loop shuf [0..<i] (win_check s2) = Inr sa"
    and "i < length (ghosts sa)"
    and "Ghost_update (shuf i) (maze sa) (pacman sa) (ghosts sa ! i) = Inr g"
    and "near (pacman sa) g" and "\<not> frightened g"
    and "update_game shuf s = Inr s'"
  shows "\<exists>sb. ghost_step (shuf i) i sa = Inr sb \<and>
           lives sb = lives sa - 1 \<and> maze sb = maze sa \<and> maze s' = maze sa \<and>
           (lives sb \<le> 0 \<longrightarrow> game_over sb \<and> game_over s') \<and>
           (0 < lives sb \<longrightarrow>
              player_at_spawn (pacman sb) \<and> (\<forall>h\<in>set (ghosts sb). at_spawn h) \<and>
              player_at_spawn (pacman s') \<and> (\<forall>j\<le>i. at_spawn (ghosts s' ! j)))"
proof -
  define s3 where "s3 = win_check s2"
  define n where "n = length (ghosts s3)"
  define sb where "sb = lose_life (sa\<lparr>ghosts := (ghosts sa)[i := g]\<rparr>)"
  from assms(1,2,3,4,10) have loop: "ghost_loop shuf [0..<n] s3 = Inr s'"
    by (simp add: update_game_def Let_def s3_def n_def)
  from ghost_loop_frame [OF assms(5)] assms(6) have i: "i < n"
    by (simp add: n_def s3_def)
  then have "[0..<n] = [0..<i] @ i # [Suc i..<n]"
    using upt_add_eq_append [of 0 i "n - i"] by (simp add: upt_conv_Cons)
  with loop assms(5) have "ghost_loop shuf (i # [Suc i..<n]) sa = Inr s'"
    by (simp add: ghost_loop_append s3_def)
  moreover from assms(7,8,9) have step: "ghost_step (shuf i) i sa = Inr sb"
    by (simp add: ghost_step_def Let_def sb_def)
  ultimately have rest: "ghost_loop shuf [Suc i..<n] sb = Inr s'" by simp
  have later: "\<forall>k\<in>set [Suc i..<n]. i < k" by simp
  from ghost_step_frame [OF step] ghost_loop_frame [OF rest]
  have fr: "maze sb = maze sa" "maze s' = maze sa" "game_over sb \<longrightarrow> game_over s'"
    "length (ghosts sb) = length (ghosts sa)" by simp_all
  show ?thesis
  proof (cases "lives sa \<le> 1")
    case True
    from lose_life_last [of "sa\<lparr>ghosts := (ghosts sa)[i := g]\<rparr>"] True
    have "lives sb = lives sa - 1" "game_over sb" by (simp_all add: sb_def)
    with step fr True show ?thesis by auto
  next
    case False
    from lose_life_more [of "sa\<lparr>ghosts := (ghosts sa)[i := g]\<rparr>"] False
    have sb: "lives sb = lives sa - 1" "player_at_spawn (pacman sb)"
      "\<forall>h\<in>set (ghosts sb). at_spawn h" by (simp_all add: sb_def)
    from ghost_loop_keeps_spawn [OF rest later] sb(2)
    have p': "player_at_spawn (pacman s')"
      and g': "\<forall>j\<le>i. j < length (ghosts sb) \<and> at_spawn (ghosts sb ! j) \<longrightarrow>
              at_spawn (ghosts s' ! j)" by simp_all
    have "\<forall>j\<le>i. at_spawn (ghosts s' ! j)"
    proof (intro allI impI)
      fix j assume "j \<le> i"
      with assms(6) fr(4) have "j < length (ghosts sb)" by simp
      with sb(3) have "at_spawn (ghosts sb ! j)" by simp
      with g' \<open>j \<le> i\<close> \<open>j < length (ghosts sb)\<close> show "at_spawn (ghosts s' ! j)" by simp
    qed
    with step fr sb p' False show ?thesis by auto
  qed
qed

lemma ambush_tiles:
  "maze_get (maze_set (level_maze LEVEL_1) 10 1 0) 10 1 = Inr 0"
  "maze_get (maze_set (level_maze LEVEL_1) 10 1 0) 9 9 = Inr 0"
  using maze_get_maze_set_same [OF tiles1(1), of 0]
    maze_get_maze_set_other [of 10 1 9 9 "level_maze LEVEL_1" 0] tiles1(2)
  by simp_all

lemma ambush_player:
  "PacMan_update (maze ambush_session) (pacman ambush_session) = Inr (pacman ambush_session)"
  by (simp add: ambush_session_def pacman_defs const_defs)

lemma ambush_pickup:
  "pickup ambush_session = Inr ambush_session"
  by (simp add: ambush_session_def pickup_def PacMan_init_def cell_of_def CELL_SIZE_def
      in_grid1 ambush_tiles)

lemma ambush_first:
  "Ghost_update [UP, DOWN, LEFT, RIGHT] (maze ambush_session) (pacman ambush_session)
     (ghosts ambush_session ! 0) =
   Inr ((Ghost_init 270 270)\<lparr>gx := 45, gy := 657 / 2, gdirection := UP\<rparr>)"
  by (simp add: ambush_session_def ghost_defs PacMan_init_def cell_of_def const_defs
      in_grid1 ambush_tiles Let_def wrap_x_def)

lemma ambush_tick:
  "update_game (\<lambda>i. [UP, DOWN, LEFT, RIGHT]) ambush_session =
     Inr (ambush_session\<lparr>lives := 1,
            ghosts := [(Ghost_init 270 270)\<lparr>gdirection := UP\<rparr>,
                       (Ghost_init 300 270)\<lparr>gx := 597 / 2, gdirection := LEFT\<rparr>]\<rparr>)"
  by (simp add: update_game_def ambush_player ambush_pickup)
    (simp add: ambush_session_def win_check_def ghost_step_def lose_life_def capture_def near_sq
      ghost_defs pacman_reset_position_def PacMan_init_def cell_of_def const_defs
      in_grid1 ambush_tiles Let_def wrap_x_def upt_conv_Cons)


theorem C6_life_lost_witness:
  "\<exists>s' sb. update_game (\<lambda>i. [UP, DOWN, LEFT, RIGHT]) ambush_session = Inr s' \<and>
      ghost_step [UP, DOWN, LEFT, RIGHT] 0 ambush_session = Inr sb \<and>
      lives sb = 1 \<and> maze s' = maze ambush_session \<and>
      player_at_spawn (pacman s') \<and> at_spawn (ghosts s' ! 0)"
proof -
  let ?shuf = "\<lambda>i::nat. [UP, DOWN, LEFT, RIGHT]"
  let ?g = "(Ghost_init 270 270)\<lparr>gx := 45, gy := 657 / 2, gdirection := UP\<rparr>"
  have a: "\<not> game_over ambush_session" "\<not> win ambush_session"
    by (simp_all add: ambush_session_def)
  have pk: "pickup (ambush_session\<lparr>pacman := pacman ambush_session\<rparr>) = Inr ambush_session"
    using ambush_pickup by simp
  have lp: "ghost_loop ?shuf [0..<0] (win_check ambush_session) = Inr ambush_session"
    by (simp add: win_check_def ambush_session_def)
  have i: "0 < length (ghosts ambush_session)"
    by (simp add: ambush_session_def)
  have n: "near (pacman ambush_session) ?g" "\<not> frightened ?g"
    by (simp_all add: near_sq ambush_session_def PacMan_init_def Ghost_init_def)
  from C6_life_lost [of ambush_session "pacman ambush_session" ambush_session ?shuf 0
      ambush_session ?g, OF a ambush_player pk lp i ambush_first n ambush_tick]
  obtain sb where sb: "ghost_step [UP, DOWN, LEFT, RIGHT] 0 ambush_session = Inr sb"
    "lives sb = lives ambush_session - 1"
    "maze
      (ambush_session\<lparr>lives := 1,
            ghosts := [(Ghost_init 270 270)\<lparr>gdirection := UP\<rparr>,
                       (Ghost_init 300 270)\<lparr>gx := 597 / 2, gdirection := LEFT\<rparr>]\<rparr>) =
     maze ambush_session"
    "0 < lives sb \<longrightarrow>
       player_at_spawn (pacman (ambush_session\<lparr>lives := 1,
            ghosts := [(Ghost_init 270 270)\<lparr>gdirection := UP\<rparr>,
                       (Ghost_init 300 270)\<lparr>gx := 597 / 2, gdirection := LEFT\<rparr>]\<rparr>)) \<and>
       (\<forall>j\<le>0. at_spawn (ghosts (ambush_session\<lparr>lives := 1,
            ghosts := [(Ghost_init 270 270)\<lparr>gdirection := UP\<rparr>,
                       (Ghost_init 300 270)\<lparr>gx := 597 / 2, gdirection := LEFT\<rparr>]\<rparr>) ! j))"
    by blast
  from sb(2) have "lives sb = 1" by (simp add: ambush_session_def)
  with sb ambush_tick show ?thesis by auto
qed

text \<open>
  C6, as the claim states it, fails. In \<open>ambush_session\<close> the first adversary, Pursuing,
  ends its update within the threshold of the player; a life is lost and one remains.
  The second adversary is reset to its spawn and then updated in the same tick: at the
  end of the tick it stands at \<open>x = 298.5\<close>, off its spawn coordinate \<open>x = 300\<close>.
\<close>

theorem C6_later_adversary_counterexample:
  "bind_r (Ghost_update [UP, DOWN, LEFT, RIGHT] (maze ambush_session) (pacman ambush_session)
            (ghosts ambush_session ! 0))
     (\<lambda>g. Inr (near (pacman ambush_session) g, frightened g)) = Inr (True, False) \<and>
   bind_r (update_game (\<lambda>i. [UP, DOWN, LEFT, RIGHT]) ambush_session)
     (\<lambda>s. Inr (lives s, map (\<lambda>g. (gx g, gstart_x g)) (ghosts s))) =
       Inr (1, [(270, 270), (597 / 2, 300)])"
  by (simp add: ambush_tick ambush_first)
    (simp add: near_sq ambush_session_def PacMan_init_def Ghost_init_def)

subsection \<open>A finished session is inert\<close>

text \<open>
  C7: when the outcome is Won or Lost (\<^verbatim>\<open>self.win\<close> or \<^verbatim>\<open>self.game_over\<close>), the per-tick
  update returns the session as it is: no field changes.
\<close>

theorem C7_finished_session_unchanged:
  "game_over s \<or> win s \<Longrightarrow> update_game shuf s = Inr s"
  by (simp add: update_game_def)

theorem C7_finished_session_unchanged_witness:
  "update_game (\<lambda>i. [UP, DOWN, LEFT, RIGHT]) (power_session\<lparr>lives := 0, game_over := True\<rparr>) =
     Inr (power_session\<lparr>lives := 0, game_over := True\<rparr>)"
  using C7_finished_session_unchanged
    [of "power_session\<lparr>lives := 0, game_over := True\<rparr>" "\<lambda>i. [UP, DOWN, LEFT, RIGHT]"]
  by simp

subsection \<open>Building a session from a template\<close>

lemma error_is_IndexError: "(e::error) = IndexError"
  by (cases e) simp

lemma find_spawn_row_returns:
  "\<forall>c\<in>set cs. c < length row \<Longrightarrow> \<exists>r. find_spawn_row row cs = Inr r"
  by (induction cs) (auto simp add: py_index_def)

lemma find_spawn_rows_returns:
  assumes "rectangular m" and "\<forall>r\<in>set rs. r < length m"
  shows "\<exists>xy. find_spawn_rows m rs = Inr xy"
  using assms(2)
proof (induction rs)
  case Nil
  then show ?case by simp
next
  case (Cons r rs)
  then have r: "r < length m" by simp
  then have m0: "py_index m 0 = Inr (hd m)"
    by (cases m) (simp_all add: py_index_def)
  from r have mr: "py_index m (int r) = Inr (m ! r)"
    by (simp add: py_index_def)
  from r assms(1) have "length (m ! r) = length (hd m)"
    by (simp add: rectangular_def list_all_iff)
  then have "\<forall>c\<in>set [0..<length (hd m)]. c < length (m ! r)" by simp
  from find_spawn_row_returns [OF this] obtain f
    where f: "find_spawn_row (m ! r) [0..<length (hd m)] = Inr f" ..
  from Cons have "\<exists>xy. find_spawn_rows m rs = Inr xy" by simp
  with m0 mr f show ?case by (cases f) simp_all
qed

lemma find_spawn_returns:
  "rectangular m \<Longrightarrow> \<exists>xy. find_spawn m = Inr xy"
  using find_spawn_rows_returns [of m "[length m div 2..<length m]"]
  by (simp add: find_spawn_def)

lemma make_ghosts_returns:
  "\<forall>k\<in>set ks. k < 4 \<Longrightarrow> \<exists>gs. make_ghosts lvl ks = Inr gs \<and> length gs = length ks"
proof (induction ks)
  case Nil
  then show ?case by simp
next
  case (Cons k ks)
  then obtain gs where "make_ghosts lvl ks = Inr gs" "length gs = length ks" by auto
  moreover from Cons.prems have "\<exists>name. py_index colors (int k) = Inr name"
    by (simp add: py_index_def colors_def)
  ultimately show ?case by auto
qed

lemma make_ghosts_raises:
  "k \<in> set ks \<Longrightarrow> 4 \<le> k \<Longrightarrow> make_ghosts lvl ks = Inl IndexError"
proof (induction ks)
  case Nil
  then show ?case by simp
next
  case (Cons a ks)
  show ?case
  proof (cases "4 \<le> a")
    case True
    then have "py_index colors (int a) = Inl IndexError"
      by (simp add: py_index_def colors_def)
    then show ?thesis by simp
  next
    case False
    with Cons have "make_ghosts lvl ks = Inl IndexError" by auto
    then show ?thesis
      by (cases "py_index colors (int a)") (simp_all add: error_is_IndexError)
  qed
qed

text \<open>
  C8, amended: \<^verbatim>\<open>setup_level\<close> validates nothing, and the program has no
  \<^verbatim>\<open>LevelConfigurationError\<close>. For every template whose rows all have the width of row 0
  and whose adversary count is at most four, construction returns a session, with the
  template's maze and that many adversaries; this includes the templates without a
  valid spawn tile (the player is then placed at the fixed coordinate \<open>(300, 450)\<close>).
  An adversary count above four raises an \<^verbatim>\<open>IndexError\<close>.
\<close>

theorem C8_construction:
  "(rectangular (level_maze lvl) \<and> ghost_count lvl \<le> 4 \<longrightarrow>
      (\<exists>s. setup_level_with lvl idx hs = Inr s \<and> maze s = level_maze lvl \<and>
           int (length (ghosts s)) = max 0 (ghost_count lvl))) \<and>
   (4 < ghost_count lvl \<longrightarrow> setup_level_with lvl idx hs = Inl IndexError)"
proof (intro conjI impI)
  assume a: "rectangular (level_maze lvl) \<and> ghost_count lvl \<le> 4"
  from find_spawn_returns [of "level_maze lvl"] a obtain xy
    where xy: "find_spawn (level_maze lvl) = Inr xy" by blast
  from a have "\<forall>k\<in>set [0..<nat (ghost_count lvl)]. k < 4" by auto
  from make_ghosts_returns [OF this, of lvl] obtain gs
    where gs: "make_ghosts lvl [0..<nat (ghost_count lvl)] = Inr gs"
      "length gs = nat (ghost_count lvl)" by auto
  from xy gs show "\<exists>s. setup_level_with lvl idx hs = Inr s \<and> maze s = level_maze lvl \<and>
           int (length (ghosts s)) = max 0 (ghost_count lvl)"
    by (simp add: setup_level_with_def Let_def)
next
  assume "4 < ghost_count lvl"
  then have "4 \<in> set [0..<nat (ghost_count lvl)]" by simp
  from make_ghosts_raises [OF this, of lvl]
  have "make_ghosts lvl [0..<nat (ghost_count lvl)] = Inl IndexError" by simp
  then show "setup_level_with lvl idx hs = Inl IndexError"
    by (cases "find_spawn (level_maze lvl)")
      (simp_all add: setup_level_with_def Let_def error_is_IndexError)
qed

theorem C8_construction_witness:
  "(\<exists>s. setup_level_with LEVEL_1 0 0 = Inr s \<and> maze s = level_maze LEVEL_1 \<and>
        int (length (ghosts s)) = 2) \<and>
   setup_level_with (LEVEL_1\<lparr>ghost_count := 5\<rparr>) 0 0 = Inl IndexError"
proof -
  have "ghost_count LEVEL_1 = 2" by (simp add: LEVEL_1_def)
  with C8_construction [of LEVEL_1 0 0] rectangular_level1
  have "\<exists>s. setup_level_with LEVEL_1 0 0 = Inr s \<and> maze s = level_maze LEVEL_1 \<and>
        int (length (ghosts s)) = 2" by simp
  moreover from C8_construction [of "LEVEL_1\<lparr>ghost_count := 5\<rparr>" 0 0]
  have "setup_level_with (LEVEL_1\<lparr>ghost_count := 5\<rparr>) 0 0 = Inl IndexError" by simp
  ultimately show ?thesis by simp
qed

text \<open>
  C8, as the claim states it, fails: a template without any open tile and a template
  with rows of different widths both yield a session.
\<close>

theorem C8_malformed_counterexample:
  "setup_level_with walled_in 0 0 =
     Inr \<lparr>selected_level = 0, maze = [[1, 1], [1, 1]], pacman = PacMan_init 300 450,
          ghosts = [], score = 0, high_score = 0, lives = 3, game_over = False,
          win = False, pellets_remaining = 0, pellets_total = 0\<rparr> \<and>
   setup_level_with ragged 0 0 =
     Inr \<lparr>selected_level = 0, maze = [[1, 1, 1], [0]], pacman = PacMan_init 15 45,
          ghosts = [(Ghost_init 270 270)\<lparr>gspeed := GHOST_SPEED * 1\<rparr>], score = 0,
          high_score = 0, lives = 3, game_over = False,
          win = False, pellets_remaining = 0, pellets_total = 0\<rparr>"
  by (simp add: setup_level_with_def walled_in_def ragged_def find_spawn_def count_pellets_def
      py_index_def colors_def upt_conv_Cons CELL_SIZE_def Let_def)

subsection \<open>Points outside the grid\<close>

text \<open>
  C9: for a point whose tile index is outside the rows or the columns of the grid, both
  collision tests return a verdict and raise nothing: the player's test finds the point
  not blocked (and goes on to the remaining corners), the adversary's test finds it
  blocked.
\<close>

theorem C9_out_of_range_verdicts:
  assumes "cell_of cy < 0 \<or> int (length m) \<le> cell_of cy \<or>
           cell_of cx < 0 \<or> int (length (hd m)) \<le> cell_of cx"
  shows "pacman_corner_blocked m (cx, cy) = Inr False \<and>
         pacman_corners_blocked m ((cx, cy) # cs) = pacman_corners_blocked m cs \<and>
         ghost_check_collision cx cy m = Inr True"
proof -
  from assms have "\<not> in_grid m (cell_of cy) (cell_of cx)"
    by (auto simp add: in_grid_def)
  then show ?thesis
    by (simp add: pacman_corner_blocked_def ghost_check_collision_def)
qed

theorem C9_out_of_range_verdicts_witness:
  "pacman_corner_blocked corridor (605, 15) = Inr False \<and>
   pacman_corners_blocked corridor [(605, 15)] = Inr False \<and>
   ghost_check_collision 605 15 corridor = Inr True"
proof -
  have "int (length (hd corridor)) \<le> cell_of 605"
    by (simp add: corridor_def cell_of_def CELL_SIZE_def)
  then show ?thesis
    using C9_out_of_range_verdicts [of 15 corridor 605 "[]"] by simp
qed

subsection \<open>The count of remaining collectibles\<close>

lemma first_tick_tiles:
  "maze_get (maze_set (level_maze LEVEL_1) 10 1 0) 9 8 = Inr 0"
  "maze_get (maze_set (level_maze LEVEL_1) 10 1 0) 9 9 = Inr 0"
proof -
  have "maze_get (level_maze LEVEL_1) 9 8 = Inr 0"
    by (simp add: LEVEL_1_def maze_get_def py_index_def)
  then show "maze_get (maze_set (level_maze LEVEL_1) 10 1 0) 9 8 = Inr 0"
    using maze_get_maze_set_other [of 10 1 9 8 "level_maze LEVEL_1" 0] by simp
  show "maze_get (maze_set (level_maze LEVEL_1) 10 1 0) 9 9 = Inr 0"
    using maze_get_maze_set_other [of 10 1 9 9 "level_maze LEVEL_1" 0] tiles1(2) by simp
qed

lemma first_tick_player:
  "PacMan_update (maze level1_start) (pacman level1_start) =
     Inr ((PacMan_init 45 315)\<lparr>px := 95 / 2\<rparr>)"
  by (simp add: level1_start_def pacman_defs cell_of_def const_defs in_grid1 tiles1 Let_def)

lemma first_tick_pickup:
  "pickup (level1_start\<lparr>pacman := (PacMan_init 45 315)\<lparr>px := 95 / 2\<rparr>\<rparr>) =
     Inr (level1_start\<lparr>pacman := (PacMan_init 45 315)\<lparr>px := 95 / 2\<rparr>,
            maze := maze_set (level_maze LEVEL_1) 10 1 0, score := 10,
            pellets_remaining := 205\<rparr>)"
  by (simp add: level1_start_def pickup_def PacMan_init_def cell_of_def CELL_SIZE_def
      in_grid1 tiles1 Let_def)

lemma first_tick:
  "update_game (\<lambda>i. [UP, DOWN, LEFT, RIGHT]) level1_start =
     Inr (level1_start\<lparr>pacman := (PacMan_init 45 315)\<lparr>px := 95 / 2\<rparr>,
            maze := maze_set (level_maze LEVEL_1) 10 1 0, score := 10,
            pellets_remaining := 205,
            ghosts := [(Ghost_init 270 270)\<lparr>gx := 537 / 2, gdirection := LEFT\<rparr>,
                       (Ghost_init 300 270)\<lparr>gx := 597 / 2, gdirection := LEFT\<rparr>]\<rparr>)"
  by (simp add: update_game_def first_tick_player first_tick_pickup)
    (simp add: level1_start_def win_check_def ghost_step_def lose_life_def capture_def near_sq
      ghost_defs PacMan_init_def cell_of_def const_defs
      in_grid1 first_tick_tiles Let_def wrap_x_def upt_conv_Cons)

text \<open>
  C10: in every session the program can reach, the remaining-collectible count is the
  number of maze tiles that hold a collectible or a power collectible
  (\<^verbatim>\<open>setup_level\<close> counts them, the pickup empties a tile in the step that decrements the
  count, nothing else writes either). A tick therefore never raises the count, and the
  count is never negative. A tick on a rectangular maze returns.
\<close>

theorem C10_count_matches_maze:
  assumes "reachable s"
  shows "pellets_remaining s = count_pellets (maze s) \<and> 0 \<le> pellets_remaining s \<and>
         (rectangular (maze s) \<longrightarrow> (\<exists>s1. update_game shuf s = Inr s1)) \<and>
         (update_game shuf s = Inr s' \<longrightarrow>
            pellets_remaining s' = count_pellets (maze s') \<and>
            pellets_remaining s' \<le> pellets_remaining s \<and> 0 \<le> pellets_remaining s')"
  using reachable_pellets [OF assms] update_game_pellets [of shuf s s']
    count_pellets_nonneg [of "maze s'"] count_pellets_nonneg [of "maze s"]
    update_game_returns [of s shuf]
  by auto

theorem C10_count_matches_maze_witness:
  "pellets_remaining level1_start = count_pellets (maze level1_start) \<and>
   pellets_remaining level1_start = 206 \<and>
   (\<exists>s'. update_game (\<lambda>i. [UP, DOWN, LEFT, RIGHT]) level1_start = Inr s' \<and>
      pellets_remaining s' = count_pellets (maze s') \<and> pellets_remaining s' = 205)"
proof -
  have r: "reachable level1_start"
    using setup1 by (rule reachable.start)
  let ?s' = "level1_start\<lparr>pacman := (PacMan_init 45 315)\<lparr>px := 95 / 2\<rparr>,
            maze := maze_set (level_maze LEVEL_1) 10 1 0, score := 10,
            pellets_remaining := 205,
            ghosts := [(Ghost_init 270 270)\<lparr>gx := 537 / 2, gdirection := LEFT\<rparr>,
                       (Ghost_init 300 270)\<lparr>gx := 597 / 2, gdirection := LEFT\<rparr>]\<rparr>"
  from C10_count_matches_maze [OF r, of "\<lambda>i. [UP, DOWN, LEFT, RIGHT]" ?s'] first_tick
  have "pellets_remaining level1_start = count_pellets (maze level1_start) \<and>
        pellets_remaining ?s' = count_pellets (maze ?s')" by blast
  moreover have "pellets_remaining level1_start = 206" "pellets_remaining ?s' = 205"
    by (simp_all add: level1_start_def)
  ultimately show ?thesis using first_tick by blast
qed


end
